theory Spec2Isabelle
  imports Main
begin

section \<open>Python strings\<close>

text \<open>
  A Python \<open>str\<close> is modelled as a \<open>string\<close> whose characters are the code points
  0..255. \<open>str.isspace\<close>, \<open>str.lower\<close> and \<open>str.strip\<close> are written out for
  that range. An \<open>Optional[str]\<close> is a \<open>string option\<close>; Python's truth test on it
  (\<open>if x\<close>, \<open>not x\<close>, \<open>x or y\<close>) is \<open>truthy\<close>.
\<close>

definition py_isspace :: "char \<Rightarrow> bool" where
  "py_isspace c =
     (let n = (of_char c :: nat)
      in (9 \<le> n \<and> n \<le> 13) \<or> (28 \<le> n \<and> n \<le> 32) \<or> n = 133 \<or> n = 160)"

definition py_strip :: "string \<Rightarrow> string" where
  "py_strip s = rev (dropWhile py_isspace (rev (dropWhile py_isspace s)))"

definition lower_char :: "char \<Rightarrow> char" where
  "lower_char c =
     (let n = (of_char c :: nat)
      in if (65 \<le> n \<and> n \<le> 90) \<or> (192 \<le> n \<and> n \<le> 222 \<and> n \<noteq> 215)
         then char_of (n + 32) else c)"

definition py_lower :: "string \<Rightarrow> string" where
  "py_lower s = map lower_char s"

definition startswith :: "string \<Rightarrow> string \<Rightarrow> bool" where
  "startswith s p = (take (length p) s = p)"

text \<open>\<open>p in s\<close> for strings: \<open>p\<close> occurs in \<open>s\<close> as a contiguous substring.\<close>

fun py_in :: "string \<Rightarrow> string \<Rightarrow> bool" where
  "py_in p [] = (p = [])"
| "py_in p (c # cs) = (startswith (c # cs) p \<or> py_in p cs)"

definition truthy :: "string option \<Rightarrow> bool" where
  "truthy x = (case x of None \<Rightarrow> False | Some s \<Rightarrow> s \<noteq> [])"

definition py_or :: "string option \<Rightarrow> string option \<Rightarrow> string option" where
  "py_or x y = (if truthy x then x else y)"

definition or_empty :: "string option \<Rightarrow> string" where
  "or_empty x = (case x of None \<Rightarrow> [] | Some s \<Rightarrow> s)"

text \<open>\<open>s.split(c)\<close> for a one-character separator, and \<open>c.join(parts)\<close>.\<close>

fun split_char :: "char \<Rightarrow> string \<Rightarrow> string list" where
  "split_char c [] = [[]]"
| "split_char c (x # xs) =
     (if x = c then [] # split_char c xs
      else (case split_char c xs of [] \<Rightarrow> [[x]] | h # t \<Rightarrow> (x # h) # t))"

fun join_char :: "char \<Rightarrow> string list \<Rightarrow> string" where
  "join_char c [] = []"
| "join_char c [x] = x"
| "join_char c (x # y # ys) = x @ c # join_char c (y # ys)"

text \<open>
  \<open>s.split(sep)\<close> for a non-empty separator: the occurrences of \<open>sep\<close> are taken from
  left to right, without overlap. (Python raises \<open>ValueError\<close> for an empty separator;
  the program only splits on \<open>" at "\<close>, \<open>"|"\<close> and \<open>"?"\<close>.)
\<close>

fun py_split :: "string \<Rightarrow> string \<Rightarrow> string list" where
  "py_split sep [] = [[]]"
| "py_split sep (x # xs) =
     (if sep \<noteq> [] \<and> startswith (x # xs) sep
      then [] # py_split sep (drop (length sep - 1) xs)
      else (case py_split sep xs of [] \<Rightarrow> [[x]] | h # t \<Rightarrow> (x # h) # t))"

text \<open>\<open>s.split(c)[0]\<close>: the part before the first \<open>c\<close>, all of \<open>s\<close> without one.\<close>

definition before_first :: "char \<Rightarrow> string \<Rightarrow> string" where
  "before_first c s = takeWhile (\<lambda>x. x \<noteq> c) s"

text \<open>The part after the first \<open>c\<close>; empty without one.\<close>

definition after_first :: "char \<Rightarrow> string \<Rightarrow> string" where
  "after_first c s = tl (dropWhile (\<lambda>x. x \<noteq> c) s)"

text \<open>The exceptions that can leave a function of the program.\<close>

datatype error = ValueError | TypeError | PlaywrightError | UnicodeEncodeError

section \<open>urllib.parse\<close>

text \<open>
  \<open>urlparse\<close>, \<open>urlunparse\<close> and \<open>urljoin\<close> of CPython 3.11, on strings of code
  points below 256 (for which \<open>_checknetloc\<close> never raises). \<open>urlsplit\<close> raises
  \<open>ValueError\<close> for a network location with one bracket but not the other, and for a
  bracketed host that \<open>_check_bracketed_host\<close> rejects; that check (IPv6 and IPvFuture
  address syntax, absent before 3.11.4) is the parameter \<open>bh\<close>. The default scheme is
  passed as given: the callers pass the empty string or a scheme that \<open>urlsplit\<close>
  returned.
\<close>

record url_parts =
  scheme :: string
  netloc :: string
  path :: string
  params :: string
  query :: string
  fragment :: string

definition uses_relative :: "string list" where
  "uses_relative = ['''', ''ftp'', ''http'', ''gopher'', ''nntp'', ''imap'',
     ''wais'', ''file'', ''https'', ''shttp'', ''mms'',
     ''prospero'', ''rtsp'', ''rtsps'', ''rtspu'', ''sftp'',
     ''svn'', ''svn+ssh'', ''ws'', ''wss'']"

definition uses_netloc :: "string list" where
  "uses_netloc = ['''', ''ftp'', ''http'', ''gopher'', ''nntp'', ''telnet'',
     ''imap'', ''wais'', ''file'', ''mms'', ''https'', ''shttp'',
     ''snews'', ''prospero'', ''rtsp'', ''rtsps'', ''rtspu'', ''rsync'',
     ''svn'', ''svn+ssh'', ''sftp'', ''nfs'', ''git'', ''git+ssh'',
     ''ws'', ''wss'']"

definition uses_params :: "string list" where
  "uses_params = ['''', ''ftp'', ''hdl'', ''prospero'', ''http'', ''imap'',
     ''https'', ''shttp'', ''rtsp'', ''rtsps'', ''rtspu'', ''sip'',
     ''sips'', ''mms'', ''sftp'', ''tel'']"

definition scheme_chars :: string where
  "scheme_chars = ''abcdefghijklmnopqrstuvwxyzABCDEFGHIJKLMNOPQRSTUVWXYZ0123456789+-.''"

definition c0_control_or_space :: "char \<Rightarrow> bool" where
  "c0_control_or_space c = ((of_char c :: nat) \<le> 32)"

definition unsafe_url_byte :: "char \<Rightarrow> bool" where
  "unsafe_url_byte c = (c = CHR 0x09 \<or> c = CHR 0x0D \<or> c = CHR 0x0A)"

definition ascii_alpha :: "char \<Rightarrow> bool" where
  "ascii_alpha c =
     (let n = (of_char c :: nat) in (65 \<le> n \<and> n \<le> 90) \<or> (97 \<le> n \<and> n \<le> 122))"

definition bind_err :: "error + 'a \<Rightarrow> ('a \<Rightarrow> error + 'b) \<Rightarrow> error + 'b" where
  "bind_err x f = (case x of Inl e \<Rightarrow> Inl e | Inr a \<Rightarrow> f a)"

text \<open>
  The scheme step of \<open>urlsplit\<close>: with \<open>i = url.find(':')\<close>, when \<open>i > 0\<close>, the first
  character is an ASCII letter and \<open>url[:i]\<close> has scheme characters only, the scheme is
  \<open>url[:i].lower()\<close> and the rest is \<open>url[i+1:]\<close>.
\<close>

definition split_scheme :: "string \<Rightarrow> string \<Rightarrow> string \<times> string" where
  "split_scheme dflt url =
     (let pre = before_first CHR '':'' url
      in if CHR '':'' \<in> set url \<and> pre \<noteq> [] \<and> ascii_alpha (hd pre)
            \<and> list_all (\<lambda>c. c \<in> set scheme_chars) pre
         then (py_lower pre, after_first CHR '':'' url)
         else (dflt, url))"

definition netloc_delim :: "char \<Rightarrow> bool" where
  "netloc_delim c = (c = CHR ''/'' \<or> c = CHR ''?'' \<or> c = CHR ''#'')"

text \<open>\<open>_splitnetloc(url, 2)\<close>, for a \<open>url\<close> that starts with \<open>//\<close>.\<close>

definition splitnetloc :: "string \<Rightarrow> string \<times> string" where
  "splitnetloc url =
     (takeWhile (\<lambda>c. \<not> netloc_delim c) (drop 2 url),
      dropWhile (\<lambda>c. \<not> netloc_delim c) (drop 2 url))"

text \<open>The two bracket checks of \<open>urlsplit\<close>; \<open>True\<close> when neither raises.\<close>

definition netloc_ok :: "(string \<Rightarrow> bool) \<Rightarrow> string \<Rightarrow> bool" where
  "netloc_ok bh nl =
     (if CHR ''['' \<in> set nl \<and> CHR '']'' \<in> set nl
      then bh (before_first CHR '']'' (after_first CHR ''['' nl))
      else CHR ''['' \<notin> set nl \<and> CHR '']'' \<notin> set nl)"

definition urlsplit :: "(string \<Rightarrow> bool) \<Rightarrow> string \<Rightarrow> string \<Rightarrow> error + url_parts" where
  "urlsplit bh dflt url0 =
     (let url1 = filter (\<lambda>c. \<not> unsafe_url_byte c) (dropWhile c0_control_or_space url0);
          (sch, url2) = split_scheme dflt url1;
          (nl, url3) = (if take 2 url2 = ''//'' then splitnetloc url2 else ([], url2))
      in if \<not> netloc_ok bh nl then Inl ValueError
         else
           let frag = after_first CHR ''#'' url3;
               url4 = before_first CHR ''#'' url3;
               qry = after_first CHR ''?'' url4;
               url5 = before_first CHR ''?'' url4
           in Inr \<lparr>scheme = sch, netloc = nl, path = url5, params = [],
                   query = qry, fragment = frag\<rparr>)"

text \<open>
  \<open>_splitparams\<close>: the parameters are split off at the first \<open>;\<close> of the last path
  segment. \<open>after_last_slash\<close> is that segment, \<open>upto_last_slash\<close> what stands before it
  (with its \<open>/\<close>).
\<close>

definition after_last_slash :: "string \<Rightarrow> string" where
  "after_last_slash s = rev (takeWhile (\<lambda>c. c \<noteq> CHR ''/'') (rev s))"

definition upto_last_slash :: "string \<Rightarrow> string" where
  "upto_last_slash s = rev (dropWhile (\<lambda>c. c \<noteq> CHR ''/'') (rev s))"

definition splitparams :: "string \<Rightarrow> string \<times> string" where
  "splitparams url =
     (if CHR ''/'' \<in> set url
      then (if CHR '';'' \<in> set (after_last_slash url)
            then (upto_last_slash url @ before_first CHR '';'' (after_last_slash url),
                  after_first CHR '';'' (after_last_slash url))
            else (url, []))
      else (before_first CHR '';'' url, after_first CHR '';'' url))"

definition urlparse :: "(string \<Rightarrow> bool) \<Rightarrow> string \<Rightarrow> string \<Rightarrow> error + url_parts" where
  "urlparse bh dflt url =
     bind_err (urlsplit bh dflt url) (\<lambda>p.
       if scheme p \<in> set uses_params \<and> CHR '';'' \<in> set (path p)
       then (case splitparams (path p) of (u, ps) \<Rightarrow> Inr (p\<lparr>path := u, params := ps\<rparr>))
       else Inr p)"

definition urlunsplit :: "url_parts \<Rightarrow> string" where
  "urlunsplit p =
     (let url1 = (if netloc p \<noteq> [] \<or> (scheme p \<noteq> [] \<and> scheme p \<in> set uses_netloc)
                     \<or> take 2 (path p) = ''//''
                  then ''//'' @ netloc p
                       @ (if path p \<noteq> [] \<and> take 1 (path p) \<noteq> ''/'' then CHR ''/'' # path p
                          else path p)
                  else path p);
          url2 = (if scheme p \<noteq> [] then scheme p @ '':'' @ url1 else url1);
          url3 = (if query p \<noteq> [] then url2 @ ''?'' @ query p else url2)
      in if fragment p \<noteq> [] then url3 @ ''#'' @ fragment p else url3)"

definition urlunparse :: "url_parts \<Rightarrow> string" where
  "urlunparse p =
     urlunsplit (if params p \<noteq> [] then p\<lparr>path := path p @ '';'' @ params p\<rparr> else p)"

text \<open>
  The path resolution of \<open>urljoin\<close>. \<open>filter_middle\<close> is
  \<open>segments[1:-1] = filter(None, segments[1:-1])\<close>; \<open>resolve_segments\<close> is the loop over
  the segments, where \<open>..\<close> pops the last resolved segment if there is one and \<open>.\<close> is
  skipped.
\<close>

definition filter_middle :: "string list \<Rightarrow> string list" where
  "filter_middle segs =
     take 1 segs @ filter (\<lambda>s. s \<noteq> []) (butlast (tl segs))
       @ (if 2 \<le> length segs then [last segs] else [])"

fun resolve_segments :: "string list \<Rightarrow> string list \<Rightarrow> string list" where
  "resolve_segments acc [] = acc"
| "resolve_segments acc (seg # segs) =
     (if seg = ''..'' then resolve_segments (butlast acc) segs
      else if seg = ''.'' then resolve_segments acc segs
      else resolve_segments (acc @ [seg]) segs)"

definition join_paths :: "string \<Rightarrow> string \<Rightarrow> string" where
  "join_paths bpath pth =
     (let base_parts0 = split_char CHR ''/'' bpath;
          base_parts = (if last base_parts0 \<noteq> [] then butlast base_parts0 else base_parts0);
          segments = (if take 1 pth = ''/'' then split_char CHR ''/'' pth
                      else filter_middle (base_parts @ split_char CHR ''/'' pth));
          resolved0 = resolve_segments [] segments;
          resolved = (if last segments = ''.'' \<or> last segments = ''..''
                      then resolved0 @ [[]] else resolved0);
          joined = join_char CHR ''/'' resolved
      in if joined = [] then ''/'' else joined)"

definition urljoin :: "(string \<Rightarrow> bool) \<Rightarrow> string \<Rightarrow> string \<Rightarrow> error + string" where
  "urljoin bh base url =
     (if base = [] then Inr url
      else if url = [] then Inr base
      else
        bind_err (urlparse bh [] base) (\<lambda>b.
        bind_err (urlparse bh (scheme b) url) (\<lambda>p.
          if scheme p \<noteq> scheme b \<or> scheme p \<notin> set uses_relative then Inr url
          else if scheme p \<in> set uses_netloc \<and> netloc p \<noteq> [] then Inr (urlunparse p)
          else
            let nl = (if scheme p \<in> set uses_netloc then netloc b else netloc p)
            in if path p = [] \<and> params p = []
               then Inr (urlunparse (p\<lparr>netloc := nl, path := path b, params := params b,
                            query := (if query p = [] then query b else query p)\<rparr>))
               else Inr (urlunparse (p\<lparr>netloc := nl, path := join_paths (path b) (path p)\<rparr>)))))"

section \<open>The network and the output sink\<close>

text \<open>
  Every call that leaves the process (\<open>requests.head\<close>, \<open>requests.get\<close>,
  \<open>requests.post\<close>, a Playwright page load or scroll) is a \<open>request\<close>. What it
  answers is decided by an oracle that sees the requests made so far, so the same URL may
  answer differently later. The state threaded through the program is the list of
  requests made, the rows appended to the CSV file, and the lines written to the standard
  output.
\<close>

datatype request =
    Head string
  | Get string
  | Post string string
  | Render string
  | Goto string
  | Scroll string
  | ScrollHeight string
  | Content string

text \<open>
  \<open>Raised\<close>: the call raised an exception. \<open>Resp status url text\<close>: a response
  with its status code, final URL and body. \<open>Height n\<close>: the number a page script
  evaluated to. A response is true (\<open>Response.ok\<close>), and passes
  \<open>raise_for_status\<close>, unless its status is in 400..599.
\<close>

datatype outcome = Raised | Resp nat string string | Height int

definition resp_ok :: "nat \<Rightarrow> bool" where
  "resp_ok status = (\<not> (400 \<le> status \<and> status < 600))"

type_synonym response = "nat \<times> string \<times> string"

record row =
  company_name :: string
  company_website :: string
  career_page :: string
  job_url :: string

record world =
  requests_made :: "request list"
  sink :: "row list"
  stdout :: "string list"

type_synonym web = "request list \<Rightarrow> request \<Rightarrow> outcome"

definition perform :: "web \<Rightarrow> request \<Rightarrow> world \<Rightarrow> outcome \<times> world" where
  "perform wb r w = (wb (requests_made w) r, w\<lparr>requests_made := requests_made w @ [r]\<rparr>)"

text \<open>
  What the program reads from a page that BeautifulSoup parsed:
  \<^item> \<open>og_property\<close>, \<open>og_name\<close>: the first \<open>meta\<close> tag with \<open>property\<close> (or \<open>name\<close>)
    \<open>og:site_name\<close>, as its \<open>content\<close> attribute (\<open>None\<close> inside when the tag has
    none); \<open>None\<close> outside when there is no such tag;
  \<^item> \<open>title_string\<close>: \<open>soup.title.string\<close>, \<open>None\<close> outside when there is no title;
  \<^item> \<open>anchors\<close>: \<open>find_all("a", href=True)\<close> in document order, each as
    (\<open>a["href"]\<close>, \<open>a.get_text()\<close>);
  \<^item> \<open>footer_anchors\<close>: the same inside the first \<open>footer\<close>, if there is one;
  \<^item> \<open>scripts\<close>: \<open>s.string\<close> of every \<open>script\<close>;
  \<^item> \<open>result_a\<close>: the \<open>href\<close> of the first anchor of class \<open>result__a\<close>.
\<close>

record soup =
  og_property :: "string option option"
  og_name :: "string option option"
  title_string :: "string option option"
  anchors :: "(string \<times> string) list"
  footer_anchors :: "(string \<times> string) list option"
  scripts :: "string option list"
  result_a :: "string option option"

text \<open>
  The collaborators of a run: the network, the HTML parser, whether Playwright could be
  imported (\<open>PLAYWRIGHT_AVAILABLE\<close>), the bracketed-host check of \<open>urlsplit\<close>, and
  the characters that the encoding of \<open>sys.stdout\<close> has (all of them for UTF-8, the
  code points below 128 for ASCII).
\<close>

record env =
  net :: web
  bs :: "string \<Rightarrow> soup"
  PLAYWRIGHT_AVAILABLE :: bool
  bracketed_host_ok :: "string \<Rightarrow> bool"
  stdout_encodes :: "char \<Rightarrow> bool"

text \<open>
  A step of the program takes the state and returns the new state with either a value or
  the exception that left it.
\<close>

type_synonym 'a io = "world \<Rightarrow> (error + 'a) \<times> world"

definition io_bind :: "'a io \<Rightarrow> ('a \<Rightarrow> 'b io) \<Rightarrow> 'b io" where
  "io_bind m f w = (case m w of (Inl e, w') \<Rightarrow> (Inl e, w') | (Inr a, w') \<Rightarrow> f a w')"

definition io_val :: "error + 'a \<Rightarrow> 'a io" where
  "io_val x w = (x, w)"

definition io_ok :: "(world \<Rightarrow> 'a \<times> world) \<Rightarrow> 'a io" where
  "io_ok m w = (case m w of (a, w') \<Rightarrow> (Inr a, w'))"

text \<open>
  \<open>print(line)\<close>: the line is written to the standard output, unless it has a character
  that the encoding of the stream does not have; then \<open>UnicodeEncodeError\<close> is raised
  and nothing is written.
\<close>

definition py_print :: "env \<Rightarrow> string \<Rightarrow> unit io" where
  "py_print ev line w =
     (if list_all (stdout_encodes ev) line then (Inr (), w\<lparr>stdout := stdout w @ [line]\<rparr>)
      else (Inl UnicodeEncodeError, w))"

section \<open>part2_agent.py: helpers\<close>

text \<open>
  \<open>safe_get\<close>: up to \<open>MAX_RETRIES = 3\<close> attempts of \<open>requests.get\<close> followed by
  \<open>raise_for_status\<close>; the first response that passes is returned, and \<open>None\<close>
  after three failures.
\<close>

definition MAX_RETRIES :: nat where
  "MAX_RETRIES = 3"

fun safe_get_loop :: "web \<Rightarrow> string \<Rightarrow> nat \<Rightarrow> world \<Rightarrow> response option \<times> world" where
  "safe_get_loop wb url 0 w = (None, w)"
| "safe_get_loop wb url (Suc n) w =
     (case perform wb (Get url) w of
        (Resp status u t, w') \<Rightarrow>
          if resp_ok status then (Some (status, u, t), w') else safe_get_loop wb url n w'
      | (_, w') \<Rightarrow> safe_get_loop wb url n w')"

definition safe_get :: "web \<Rightarrow> string \<Rightarrow> world \<Rightarrow> response option \<times> world" where
  "safe_get wb url w = safe_get_loop wb url MAX_RETRIES w"

text \<open>
  One tier of the redirect resolver: \<open>try: r = ...; if r and r.url: return r.url\<close>,
  with \<open>except Exception: pass\<close>. It yields a URL only for a true response with a
  non-empty URL.
\<close>

definition tier_url :: "outcome \<Rightarrow> string option" where
  "tier_url r = (case r of
        Resp status u t \<Rightarrow> (if resp_ok status \<and> u \<noteq> [] then Some u else None)
      | _ \<Rightarrow> None)"

text \<open>
  \<open>resolve_final_url\<close>: \<open>None\<close> for a false (absent or empty) URL; else the HEAD
  tier, then the GET tier, then the input itself.
\<close>

definition resolve_final_url :: "web \<Rightarrow> string option \<Rightarrow> world \<Rightarrow> string option \<times> world" where
  "resolve_final_url wb url w =
     (case url of
        None \<Rightarrow> (None, w)
      | Some u \<Rightarrow>
          if u = [] then (None, w)
          else
            (case perform wb (Head u) w of
               (r1, w1) \<Rightarrow>
                 (case tier_url r1 of
                    Some u1 \<Rightarrow> (Some u1, w1)
                  | None \<Rightarrow>
                      (case perform wb (Get u) w1 of
                         (r2, w2) \<Rightarrow>
                           (case tier_url r2 of
                              Some u2 \<Rightarrow> (Some u2, w2)
                            | None \<Rightarrow> (Some u, w2))))))"

definition CAREER_KEYWORDS :: "string list" where
  "CAREER_KEYWORDS = [''career'', ''careers'', ''jobs'', ''join'', ''vacancies'', ''openings'',
     ''join-us'', ''work-with-us'']"

definition JOB_KEYWORDS :: "string list" where
  "JOB_KEYWORDS = [''job'', ''position'', ''apply'', ''opening'', ''/jobs/'', ''/open-positions/'']"

definition ATS_HOSTS :: "string list" where
  "ATS_HOSTS = [''lever.co'', ''greenhouse.io'', ''workday.com'', ''smartrecruiters.com'',
     ''apply.workable.com'', ''jobvite.com'']"

text \<open>\<open>any(k in s for k in ks)\<close>.\<close>

definition any_in :: "string list \<Rightarrow> string \<Rightarrow> bool" where
  "any_in ks s = list_ex (\<lambda>k. py_in k s) ks"

definition is_linkedin_domain :: "(string \<Rightarrow> bool) \<Rightarrow> string option \<Rightarrow> error + bool" where
  "is_linkedin_domain bh url =
     (if \<not> truthy url then Inr False
      else bind_err (urlparse bh [] (or_empty url)) (\<lambda>p.
        let host = py_lower (netloc p)
        in Inr (py_in ''linkedin.com'' host \<or> py_in ''lnkd.in'' host)))"

definition normalize_url :: "(string \<Rightarrow> bool) \<Rightarrow> string \<Rightarrow> string option \<Rightarrow> error + string option" where
  "normalize_url bh base href =
     (if \<not> truthy href then Inr None
      else
        let h = py_strip (or_empty href)
        in if startswith h ''#'' \<or> startswith (py_lower h) ''javascript:''
              \<or> startswith (py_lower h) ''mailto:''
           then Inr None
           else if startswith h ''//''
           then bind_err (urlparse bh [] base) (\<lambda>parsed_base.
                  let sch = (if scheme parsed_base \<noteq> [] then scheme parsed_base else ''https'')
                  in Inr (Some (sch @ '':'' @ h)))
           else bind_err (urljoin bh base h) (\<lambda>r. Inr (Some r)))"

definition is_ats_url :: "(string \<Rightarrow> bool) \<Rightarrow> string option \<Rightarrow> error + bool" where
  "is_ats_url bh url =
     (if \<not> truthy url then Inr False
      else bind_err (urlparse bh [] (or_empty url)) (\<lambda>p.
        let host = py_lower (netloc p)
        in Inr (list_ex (\<lambda>ats. py_in ats host) ATS_HOSTS)))"

text \<open>
  \<open>first_external_link\<close>: the first stripped \<open>href\<close> that starts with \<open>http\<close> and, when
  \<open>avoid_domain\<close> is given and non-empty, does not contain it.
\<close>

definition first_external_link :: "soup \<Rightarrow> string option \<Rightarrow> string option" where
  "first_external_link sp avoid_domain =
     find (\<lambda>href. startswith href ''http''
                  \<and> (\<not> truthy avoid_domain \<or> \<not> py_in (or_empty avoid_domain) href))
       (map (\<lambda>a. py_strip (fst a)) (anchors sp))"

section \<open>part2_agent.py: LinkedIn job extraction\<close>

text \<open>
  The company-name heuristics, the same statements in
  \<open>render_linkedin_job_with_playwright\<close> and \<open>extract_linkedin_job_requests\<close>: the
  \<open>og:site_name\<close> content, stripped, when it is non-empty; else, when the page has a
  title whose string contains \<open>" at "\<close>,
  \<open>title.split(" at ")[-1].split("|")[0].strip()\<close>.
\<close>

definition title_company :: "string \<Rightarrow> string" where
  "title_company title = py_strip (before_first CHR ''|'' (last (py_split '' at '' title)))"

definition extract_company_name :: "soup \<Rightarrow> string option" where
  "extract_company_name sp =
     (let og = (case og_property sp of Some c \<Rightarrow> Some c | None \<Rightarrow> og_name sp);
          company_name = (case og of
                            Some (Some c) \<Rightarrow> if c \<noteq> [] then Some (py_strip c) else None
                          | _ \<Rightarrow> None)
      in if \<not> truthy company_name
         then (case title_string sp of
                 None \<Rightarrow> company_name
               | Some ts \<Rightarrow>
                   let title = or_empty ts
                   in if py_in '' at '' title then Some (title_company title) else company_name)
         else company_name)"

text \<open>
  The company-website heuristics of the rendered page: the \<open>href\<close> of the first anchor
  whose lower-cased text contains \<open>company website\<close> or, stripped, is \<open>website\<close>; when
  that is absent or empty, the first external link that does not contain
  \<open>linkedin.com\<close>.
\<close>

definition candidate_site :: "soup \<Rightarrow> string option" where
  "candidate_site sp =
     (let hit = find (\<lambda>a. py_in ''company website'' (py_lower (snd a))
                           \<or> py_strip (py_lower (snd a)) = ''website'') (anchors sp);
          cand = map_option fst hit
      in if \<not> truthy cand then first_external_link sp (Some ''linkedin.com'') else cand)"

text \<open>
  \<open>render_linkedin_job_with_playwright\<close>: the whole body runs under \<open>try\<close>, so a
  failed page load gives \<open>(None, None)\<close>. A \<open>None\<close> URL makes \<open>page.goto\<close> raise.
\<close>

definition render_linkedin_job_with_playwright ::
  "env \<Rightarrow> string option \<Rightarrow> world \<Rightarrow> (string option \<times> string option) \<times> world" where
  "render_linkedin_job_with_playwright ev job w =
     (if \<not> PLAYWRIGHT_AVAILABLE ev then ((None, None), w)
      else case job of
        None \<Rightarrow> ((None, None), w)
      | Some u \<Rightarrow>
          (case perform (net ev) (Render u) w of
             (Resp status final content, w') \<Rightarrow>
               ((extract_company_name (bs ev content), candidate_site (bs ev content)), w')
           | (_, w') \<Rightarrow> ((None, None), w')))"

text \<open>\<open>safe_get\<close> on an \<open>Optional[str]\<close>: \<open>requests.get(None)\<close> raises at once.\<close>

definition safe_get_opt :: "web \<Rightarrow> string option \<Rightarrow> world \<Rightarrow> response option \<times> world" where
  "safe_get_opt wb url w = (case url of None \<Rightarrow> (None, w) | Some u \<Rightarrow> safe_get wb u w)"

definition extract_linkedin_job_requests ::
  "env \<Rightarrow> string option \<Rightarrow> world \<Rightarrow> (string option \<times> string option) \<times> world" where
  "extract_linkedin_job_requests ev job w =
     (case safe_get_opt (net ev) job w of
        (None, w') \<Rightarrow> ((None, None), w')
      | (Some (status, final, text), w') \<Rightarrow>
          ((extract_company_name (bs ev text),
            first_external_link (bs ev text) (Some ''linkedin.com'')), w'))"

section \<open>part2_agent.py: web search for the company site\<close>

definition search_company_site_duckduckgo ::
  "env \<Rightarrow> string option \<Rightarrow> world \<Rightarrow> string option \<times> world" where
  "search_company_site_duckduckgo ev name w =
     (if \<not> truthy name then (None, w)
      else
        (case perform (net ev)
                (Post ''https://duckduckgo.com/html/'' (or_empty name @ '' official website'')) w of
           (Resp status final text, w') \<Rightarrow>
             if \<not> resp_ok status then (None, w')
             else
               (case result_a (bs ev text) of
                  Some (Some href) \<Rightarrow>
                    if href \<noteq> [] then (Some href, w')
                    else (first_external_link (bs ev text) None, w')
                | _ \<Rightarrow> (first_external_link (bs ev text) None, w'))
         | (_, w') \<Rightarrow> (None, w')))"

section \<open>part2_agent.py: career page finder and job extractor\<close>

text \<open>
  The probe loop of \<open>find_career_page\<close> and of \<open>extract_one_job_from_career\<close>:
  for each path, \<open>candidate = urljoin(base, p)\<close>, \<open>r = safe_get(candidate)\<close>, and the
  candidate is returned when \<open>r\<close> is a response whose lower-cased body contains one of
  the keywords.
\<close>

fun probe_paths :: "env \<Rightarrow> string \<Rightarrow> string list \<Rightarrow> string list \<Rightarrow> string option io" where
  "probe_paths ev base kws [] w = (Inr None, w)"
| "probe_paths ev base kws (p # ps) w =
     (case urljoin (bracketed_host_ok ev) base p of
        Inl e \<Rightarrow> (Inl e, w)
      | Inr candidate \<Rightarrow>
          (case safe_get (net ev) candidate w of
             (Some (status, final, text), w') \<Rightarrow>
               if any_in kws (py_lower text) then (Inr (Some candidate), w')
               else probe_paths ev base kws ps w'
           | (None, w') \<Rightarrow> probe_paths ev base kws ps w'))"

text \<open>
  The homepage scan, first loop: the anchors whose \<open>href\<close> or text has a career keyword,
  each with its normalized URL; an anchor whose URL normalizes to nothing is skipped.
\<close>

fun career_anchors :: "(string \<Rightarrow> bool) \<Rightarrow> string \<Rightarrow> (string \<times> string) list
    \<Rightarrow> error + (string \<times> string) list" where
  "career_anchors bh base [] = Inr []"
| "career_anchors bh base (a # as) =
     bind_err (normalize_url bh base (Some (fst a))) (\<lambda>full.
       bind_err (career_anchors bh base as) (\<lambda>rest.
         if \<not> truthy full then Inr rest
         else if any_in CAREER_KEYWORDS (py_lower (fst a))
                 \<or> any_in CAREER_KEYWORDS (py_lower (snd a))
         then Inr ((or_empty full, py_lower (snd a)) # rest)
         else Inr rest))"

text \<open>Second loop: the first collected anchor whose page has a career or job keyword.\<close>

fun first_career_hit :: "env \<Rightarrow> (string \<times> string) list \<Rightarrow> world \<Rightarrow> string option \<times> world" where
  "first_career_hit ev [] w = (None, w)"
| "first_career_hit ev (a # as) w =
     (case safe_get (net ev) (fst a) w of
        (Some (status, final, text), w') \<Rightarrow>
          if any_in (CAREER_KEYWORDS @ JOB_KEYWORDS) (py_lower text) then (Some (fst a), w')
          else first_career_hit ev as w'
      | (None, w') \<Rightarrow> first_career_hit ev as w')"

text \<open>The footer scan: the first footer link with a career keyword in its URL that answers.\<close>

fun footer_scan :: "env \<Rightarrow> string \<Rightarrow> (string \<times> string) list \<Rightarrow> string option io" where
  "footer_scan ev base [] w = (Inr None, w)"
| "footer_scan ev base (a # as) w =
     (case normalize_url (bracketed_host_ok ev) base (Some (fst a)) of
        Inl e \<Rightarrow> (Inl e, w)
      | Inr full \<Rightarrow>
          if truthy full \<and> any_in CAREER_KEYWORDS (py_lower (or_empty full))
          then (case safe_get (net ev) (or_empty full) w of
                  (Some r, w') \<Rightarrow> (Inr full, w')
                | (None, w') \<Rightarrow> footer_scan ev base as w')
          else footer_scan ev base as w)"

text \<open>
  The script scan: \<open>re.search\<close> of the pattern \<^verbatim>\<open>https?://[^\s'"<>]*\<close>, the escaped ATS
  host, \<^verbatim>\<open>[^\s'"<>]*\<close>. A match starts at the leftmost \<open>http://\<close> or \<open>https://\<close>
  whose following run of characters other than white space, quotes and angle brackets
  contains the host, and is the prefix with that whole run (the host's own characters are
  all in the class).
\<close>

definition url_run_char :: "char \<Rightarrow> bool" where
  "url_run_char c =
     (\<not> py_isspace c \<and> c \<noteq> CHR 0x27 \<and> c \<noteq> CHR 0x22 \<and> c \<noteq> CHR ''<'' \<and> c \<noteq> CHR ''>'')"

definition ats_match_here :: "string \<Rightarrow> string \<Rightarrow> string option" where
  "ats_match_here ats s =
     (if startswith s ''https://''
      then (let run = takeWhile url_run_char (drop 8 s)
            in if py_in ats run then Some (''https://'' @ run) else None)
      else if startswith s ''http://''
      then (let run = takeWhile url_run_char (drop 7 s)
            in if py_in ats run then Some (''http://'' @ run) else None)
      else None)"

fun ats_search :: "string \<Rightarrow> string \<Rightarrow> string option" where
  "ats_search ats [] = None"
| "ats_search ats (c # cs) =
     (case ats_match_here ats (c # cs) of
        Some m \<Rightarrow> Some m
      | None \<Rightarrow> ats_search ats cs)"

fun first_ats_match :: "string list \<Rightarrow> string \<Rightarrow> string option" where
  "first_ats_match [] txt = None"
| "first_ats_match (ats # rest) txt =
     (case ats_search ats txt of Some m \<Rightarrow> Some m | None \<Rightarrow> first_ats_match rest txt)"

fun script_scan :: "string option list \<Rightarrow> string option" where
  "script_scan [] = None"
| "script_scan (s # ss) =
     (case first_ats_match ATS_HOSTS (or_empty s) of
        Some m \<Rightarrow> Some m
      | None \<Rightarrow> script_scan ss)"

definition career_paths :: "string list" where
  "career_paths = [''/careers'', ''/careers/'', ''/jobs'', ''/jobs/'', ''/about/careers'',
     ''/company/careers'', ''/join-us'']"

definition find_career_page :: "env \<Rightarrow> string option \<Rightarrow> string option io" where
  "find_career_page ev company_site_url =
     (if \<not> truthy company_site_url then io_val (Inr None)
      else
        io_bind (io_ok (resolve_final_url (net ev) company_site_url)) (\<lambda>resolved.
        io_bind (io_val (urlparse (bracketed_host_ok ev) [] (or_empty resolved))) (\<lambda>parsed0.
        io_bind (io_val (if scheme parsed0 = []
                         then urlparse (bracketed_host_ok ev) [] (''https://'' @ or_empty resolved)
                         else Inr parsed0)) (\<lambda>parsed.
        let base = scheme parsed @ ''://'' @ netloc parsed
        in io_bind (probe_paths ev base (CAREER_KEYWORDS @ JOB_KEYWORDS) career_paths) (\<lambda>by_path.
           case by_path of
             Some candidate \<Rightarrow> io_val (Inr (Some candidate))
           | None \<Rightarrow>
               io_bind (io_ok (safe_get (net ev) base)) (\<lambda>r.
               case r of
                 None \<Rightarrow> io_val (Inr None)
               | Some (status, final, text) \<Rightarrow>
                   let sp = bs ev text
                   in io_bind (io_val (career_anchors (bracketed_host_ok ev) base (anchors sp)))
                        (\<lambda>found.
                      io_bind (io_ok (first_career_hit ev found)) (\<lambda>hit.
                      case hit of
                        Some full \<Rightarrow> io_val (Inr (Some full))
                      | None \<Rightarrow>
                          io_bind (case footer_anchors sp of
                                     None \<Rightarrow> io_val (Inr None)
                                   | Some fas \<Rightarrow> footer_scan ev base fas) (\<lambda>foot.
                          case foot of
                            Some full \<Rightarrow> io_val (Inr (Some full))
                          | None \<Rightarrow> io_val (Inr (script_scan (scripts sp))))))))))))"

text \<open>
  The anchor loop of \<open>extract_one_job_from_career\<close>: the first anchor with a job keyword
  in its \<open>href\<close> or text whose normalized URL is non-empty, does not start with
  \<open>javascript:\<close> and does not contain \<open>mailto:\<close>.
\<close>

fun job_anchor_scan :: "(string \<Rightarrow> bool) \<Rightarrow> string \<Rightarrow> (string \<times> string) list
    \<Rightarrow> error + string option" where
  "job_anchor_scan bh career_url [] = Inr None"
| "job_anchor_scan bh career_url (a # as) =
     (if any_in JOB_KEYWORDS (py_lower (fst a)) \<or> any_in JOB_KEYWORDS (py_lower (snd a))
      then bind_err (normalize_url bh career_url (Some (fst a))) (\<lambda>candidate.
             if truthy candidate
                \<and> \<not> startswith (py_lower (or_empty candidate)) ''javascript:''
                \<and> \<not> py_in ''mailto:'' (or_empty candidate)
             then Inr candidate
             else job_anchor_scan bh career_url as)
      else job_anchor_scan bh career_url as)"

definition job_paths :: "string list" where
  "job_paths = [''/jobs'', ''/openings'', ''/careers/jobs'']"

definition extract_one_job_from_career :: "env \<Rightarrow> string option \<Rightarrow> string option io" where
  "extract_one_job_from_career ev career_url =
     (if \<not> truthy career_url then io_val (Inr None)
      else
        io_bind (io_ok (safe_get (net ev) (or_empty career_url))) (\<lambda>r.
        case r of
          None \<Rightarrow> io_val (Inr None)
        | Some (status, final, text) \<Rightarrow>
            io_bind (io_val (job_anchor_scan (bracketed_host_ok ev) (or_empty career_url)
                               (anchors (bs ev text)))) (\<lambda>hit.
            case hit of
              Some candidate \<Rightarrow> io_val (Inr (Some candidate))
            | None \<Rightarrow>
                io_bind (io_val (is_ats_url (bracketed_host_ok ev) career_url)) (\<lambda>ats.
                if ats then io_val (Inr career_url)
                else
                  io_bind (io_val (urlparse (bracketed_host_ok ev) [] (or_empty career_url)))
                    (\<lambda>parsed.
                  probe_paths ev (scheme parsed @ ''://'' @ netloc parsed)
                    JOB_KEYWORDS job_paths)))))"

section \<open>part2_agent.py: the listing page\<close>

text \<open>
  \<open>job_urls\<close> is a Python set of \<open>Optional[str]\<close> (\<open>normalize_url\<close> may return
  \<open>None\<close>, which is added like any value). It is modelled as a list without
  repetitions: \<open>List.insert\<close> adds a value that is not yet in it, \<open>length\<close> is
  \<open>len\<close>. The order in which \<open>list(job_urls)\<close> enumerates the set is not fixed by
  Python; the model enumerates the latest addition first.

  One pass over the anchors of the rendered page: every \<open>href\<close> that contains
  \<open>/jobs/view/\<close> is cut at its first \<open>?\<close>, normalized against the search URL and
  added.
\<close>

fun collect_job_urls :: "(string \<Rightarrow> bool) \<Rightarrow> string \<Rightarrow> (string \<times> string) list
    \<Rightarrow> string option list \<Rightarrow> error + string option list" where
  "collect_job_urls bh search_url [] job_urls = Inr job_urls"
| "collect_job_urls bh search_url (a # as) job_urls =
     (if py_in ''/jobs/view/'' (fst a)
      then bind_err (normalize_url bh search_url (Some (before_first CHR ''?'' (fst a))))
             (\<lambda>full. collect_job_urls bh search_url as (List.insert full job_urls))
      else collect_job_urls bh search_url as job_urls)"

text \<open>
  The loop \<open>for i in range(max_scrolls)\<close>: scroll, wait, read the page (one \<open>Scroll\<close>
  request; any of the Playwright calls raising leaves the function), collect, and stop
  when \<open>prev is not None and curr == prev\<close>.
\<close>

fun scroll_loop :: "env \<Rightarrow> string \<Rightarrow> nat \<Rightarrow> nat option \<Rightarrow> string option list
    \<Rightarrow> string option list io" where
  "scroll_loop ev search_url 0 prev job_urls w = (Inr job_urls, w)"
| "scroll_loop ev search_url (Suc n) prev job_urls w =
     (case perform (net ev) (Scroll search_url) w of
        (Resp status final content, w') \<Rightarrow>
          (case collect_job_urls (bracketed_host_ok ev) search_url
                  (anchors (bs ev content)) job_urls of
             Inl e \<Rightarrow> (Inl e, w')
           | Inr job_urls' \<Rightarrow>
               if prev = Some (length job_urls') then (Inr job_urls', w')
               else scroll_loop ev search_url n (Some (length job_urls')) job_urls' w')
      | (_, w') \<Rightarrow> (Inl PlaywrightError, w'))"

definition scrape_jobs_from_search_page :: "env \<Rightarrow> string \<Rightarrow> nat \<Rightarrow> string option list io" where
  "scrape_jobs_from_search_page ev search_url max_scrolls w =
     (if \<not> PLAYWRIGHT_AVAILABLE ev then (Inr [], w)
      else
        (case perform (net ev) (Goto search_url) w of
           (Resp status final content, w') \<Rightarrow> scroll_loop ev search_url max_scrolls None [] w'
         | (_, w') \<Rightarrow> (Inl PlaywrightError, w')))"

text \<open>The default of the \<open>max_scrolls\<close> argument, which \<open>run_main\<close> leaves in place.\<close>

definition max_scrolls_default :: nat where
  "max_scrolls_default = 20"

section \<open>part2_agent.py: the pipeline for one job\<close>

text \<open>Steps A and B: the rendered page first, the plain fetch when a field is missing.\<close>

definition step_AB :: "env \<Rightarrow> string option \<Rightarrow> bool \<Rightarrow> world
    \<Rightarrow> (string option \<times> string option) \<times> world" where
  "step_AB ev job use_playwright w =
     (case (if use_playwright \<and> PLAYWRIGHT_AVAILABLE ev
            then render_linkedin_job_with_playwright ev job w
            else ((None, None), w)) of
        ((cname, csite), w1) \<Rightarrow>
          let company_name1 = py_or cname None;
              company_website1 = py_or csite None
          in if \<not> truthy company_name1 \<or> \<not> truthy company_website1
             then (case extract_linkedin_job_requests ev job w1 of
                     ((cname2, csite2), w2) \<Rightarrow>
                       ((py_or company_name1 cname2, py_or company_website1 csite2), w2))
             else ((company_name1, company_website1), w1))"

text \<open>Step C: resolve the candidate site; a LinkedIn destination is dropped.\<close>

definition step_C :: "env \<Rightarrow> string option \<Rightarrow> string option io" where
  "step_C ev site =
     (if truthy site
      then io_bind (io_ok (resolve_final_url (net ev) site)) (\<lambda>final_site.
           io_bind (io_val (is_linkedin_domain (bracketed_host_ok ev) final_site)) (\<lambda>li.
           io_val (Inr (if li then None else final_site))))
      else io_val (Inr site))"

text \<open>Step D: without a site but with a name, the web search; a LinkedIn result is not taken.\<close>

definition step_D :: "env \<Rightarrow> string option \<Rightarrow> string option \<Rightarrow> string option io" where
  "step_D ev name site =
     (if \<not> truthy site \<and> truthy name
      then io_bind (io_ok (search_company_site_duckduckgo ev name)) (\<lambda>found.
           if truthy found
           then io_bind (io_ok (resolve_final_url (net ev) found)) (\<lambda>final.
                io_bind (io_val (is_linkedin_domain (bracketed_host_ok ev) final)) (\<lambda>li.
                io_val (Inr (if \<not> li then final else site))))
           else io_val (Inr site))
      else io_val (Inr site))"

text \<open>
  Step E: the last-resort guess, \<open>"https://www."\<close> followed by the lower-cased name
  without the characters outside \<open>a-z 0-9 - .\<close>
\<close>

definition slug_char :: "char \<Rightarrow> bool" where
  "slug_char c = (c \<in> set ''abcdefghijklmnopqrstuvwxyz0123456789-.'')"

definition guessed_site :: "string \<Rightarrow> string" where
  "guessed_site name = ''https://www.'' @ filter slug_char (py_lower name)"

definition step_E :: "string option \<Rightarrow> string option \<Rightarrow> string option" where
  "step_E name site =
     (if \<not> truthy site \<and> truthy name then Some (guessed_site (or_empty name)) else site)"

text \<open>Step F: the career page, dropped when it is on a LinkedIn domain.\<close>

definition step_F :: "env \<Rightarrow> string option \<Rightarrow> string option io" where
  "step_F ev site =
     io_bind (if truthy site then find_career_page ev site else io_val (Inr None)) (\<lambda>cp.
       if truthy cp
       then io_bind (io_val (is_linkedin_domain (bracketed_host_ok ev) cp)) (\<lambda>li.
            io_val (Inr (if li then None else cp)))
       else io_val (Inr cp))"

text \<open>Step G: one job opening from the career page, dropped when it is on a LinkedIn domain.\<close>

definition step_G :: "env \<Rightarrow> string option \<Rightarrow> string option io" where
  "step_G ev cp =
     io_bind (if truthy cp then extract_one_job_from_career ev cp else io_val (Inr None)) (\<lambda>jo.
       if truthy jo
       then io_bind (io_val (is_linkedin_domain (bracketed_host_ok ev) jo)) (\<lambda>li.
            io_val (Inr (if li then None else jo)))
       else io_val (Inr jo))"

text \<open>
  \<open>save_row\<close> appends the row to the CSV file, which is opened with the encoding
  UTF-8 (the header line is not modelled). \<open>process_single_job\<close> saves the row, then
  prints \<open>company_name,career_page,job_url\<close>, then returns the row: an exception of
  \<open>print\<close> leaves the function after the row was saved.
\<close>

definition save_row :: "row \<Rightarrow> world \<Rightarrow> unit \<times> world" where
  "save_row r w = ((), w\<lparr>sink := sink w @ [r]\<rparr>)"

definition row_line :: "row \<Rightarrow> string" where
  "row_line r = company_name r @ '','' @ career_page r @ '','' @ job_url r"

definition process_single_job :: "env \<Rightarrow> string option \<Rightarrow> bool \<Rightarrow> row option io" where
  "process_single_job ev job use_playwright =
     io_bind (io_ok (step_AB ev job use_playwright)) (\<lambda>(name, site_AB).
     io_bind (step_C ev site_AB) (\<lambda>site_C.
     io_bind (step_D ev name site_C) (\<lambda>site_D.
     let site = step_E name site_D
     in io_bind (step_F ev site) (\<lambda>cp.
        io_bind (step_G ev cp) (\<lambda>job_opening.
        if \<not> truthy cp then io_val (Inr None)
        else
          let r = \<lparr>company_name = or_empty name, company_website = or_empty site,
                   career_page = or_empty cp, job_url = or_empty job_opening\<rparr>
          in io_bind (io_ok (save_row r)) (\<lambda>u.
             io_bind (py_print ev (row_line r)) (\<lambda>u. io_val (Inr (Some r)))))))))"

section \<open>part2_agent.py: the top-level runner\<close>

fun process_all :: "env \<Rightarrow> string option list \<Rightarrow> bool \<Rightarrow> unit io" where
  "process_all ev [] use_playwright w = (Inr (), w)"
| "process_all ev (j # js) use_playwright w =
     io_bind (process_single_job ev j use_playwright)
       (\<lambda>r. process_all ev js use_playwright) w"

definition run_main :: "env \<Rightarrow> string \<Rightarrow> bool \<Rightarrow> unit io" where
  "run_main ev input_url0 use_playwright =
     (let input_url = py_strip input_url0
      in if py_in ''/jobs/view/'' input_url
         then io_bind (process_single_job ev (Some input_url) use_playwright)
                (\<lambda>r. io_val (Inr ()))
         else
           io_bind (if use_playwright \<and> PLAYWRIGHT_AVAILABLE ev
                    then scrape_jobs_from_search_page ev input_url max_scrolls_default
                    else io_val (Inr [])) (\<lambda>job_urls.
           if job_urls = [] then io_val (Inr ())
           else process_all ev job_urls use_playwright))"

section \<open>part2_agent_prev.py\<close>

text \<open>
  The earlier variant of the agent. Its functions carry the prefix \<open>prev_\<close>; its
  \<open>safe_get\<close> is the one above (three attempts, \<open>raise_for_status\<close>).
\<close>

definition prev_CAREER_KEYWORDS :: "string list" where
  "prev_CAREER_KEYWORDS = [''careers'', ''jobs'', ''join-us'', ''joinus'', ''work-with-us'',
     ''vacancies'', ''open-positions'', ''opportunities'', ''roles'', ''positions'', ''join'',
     ''hiring'']"

definition prev_JOB_KEYWORDS :: "string list" where
  "prev_JOB_KEYWORDS = [''job'', ''position'', ''openings'', ''apply'', ''career'', ''careers'',
     ''roles'', ''/jobs/'', ''/open-positions/'']"

definition prev_normalize_url :: "(string \<Rightarrow> bool) \<Rightarrow> string \<Rightarrow> string option \<Rightarrow> error + string option" where
  "prev_normalize_url bh base href =
     (if \<not> truthy href then Inr None
      else
        let h = py_strip (or_empty href)
        in if startswith h ''//''
           then bind_err (urlparse bh [] base) (\<lambda>parsed_base.
                  let sch = (if scheme parsed_base \<noteq> [] then scheme parsed_base else ''https'')
                  in Inr (Some (sch @ '':'' @ h)))
           else bind_err (urljoin bh base h) (\<lambda>r. Inr (Some r)))"

text \<open>\<open>domain_of\<close>: the lower-cased network location, \<open>""\<close> when \<open>urlparse\<close> raises.\<close>

definition domain_of :: "(string \<Rightarrow> bool) \<Rightarrow> string \<Rightarrow> string" where
  "domain_of bh url = (case urlparse bh [] url of Inl e \<Rightarrow> [] | Inr p \<Rightarrow> py_lower (netloc p))"

text \<open>
  \<^verbatim>\<open>re.sub(r"\s*\|\s*LinkedIn.*$", "", s)\<close>. A match starts at white space that runs up to a
  \<open>|\<close> which, after white space, is followed by \<open>LinkedIn\<close>, and it takes the rest of
  the string, which must have no newline other than a last one (\<open>.\<close> does not match a
  newline, and \<open>$\<close> matches at the end or before a final newline, which then stays).
  \<open>match_linkedin s\<close> is what is left of \<open>s\<close> after a match at its start. On
  \<open>None\<close> (\<open>soup.title.string\<close> of a title without a single string) \<open>re.sub\<close> raises
  \<open>TypeError\<close>.
\<close>

definition match_linkedin :: "string \<Rightarrow> string option" where
  "match_linkedin s =
     (let s1 = dropWhile py_isspace s
      in if take 1 s1 = ''|''
         then (let s2 = dropWhile py_isspace (tl s1)
               in if startswith s2 ''LinkedIn''
                  then (let r = drop 8 s2
                        in if CHR 0x0A \<notin> set r then Some []
                           else if last r = CHR 0x0A \<and> CHR 0x0A \<notin> set (butlast r)
                           then Some [CHR 0x0A]
                           else None)
                  else None)
         else None)"

fun sub_linkedin :: "string \<Rightarrow> string" where
  "sub_linkedin [] = []"
| "sub_linkedin (c # cs) =
     (case match_linkedin (c # cs) of
        Some rest \<Rightarrow> rest
      | None \<Rightarrow> c # sub_linkedin cs)"

definition title_name :: "string option \<Rightarrow> error + string" where
  "title_name ts =
     (case ts of None \<Rightarrow> Inl TypeError | Some s \<Rightarrow> Inr (py_strip (sub_linkedin s)))"

text \<open>
  The company name of \<open>parse_linkedin_job\<close>, starting from the name found so far: the
  \<open>og:site_name\<close> content when the name is still false, then the title.
\<close>

definition prev_company_name :: "soup \<Rightarrow> string option \<Rightarrow> error + string option" where
  "prev_company_name sp name0 =
     (let og = (case og_property sp of Some c \<Rightarrow> Some c | None \<Rightarrow> og_name sp);
          name1 = (if \<not> truthy name0
                   then (case og of
                           Some (Some c) \<Rightarrow> if c \<noteq> [] then Some (py_strip c) else name0
                         | _ \<Rightarrow> name0)
                   else name0)
      in if \<not> truthy name1
         then (case title_string sp of
                 None \<Rightarrow> Inr name1
               | Some ts \<Rightarrow> bind_err (title_name ts) (\<lambda>n. Inr (Some n)))
         else Inr name1)"

text \<open>
  The company-website loop: the first anchor that passes \<open>pre\<close> (\<open>"http" in href\<close> on
  the rendered page, \<open>href.startswith("http")\<close> on the fetched one), does not contain
  \<open>linkedin.com\<close>, and whose text contains \<open>website\<close> or whose domain has a dot,
  normalized; \<open>site0\<close> when there is none. (With \<open>None\<close> for the base,
  \<open>urlparse\<close> and \<open>urljoin\<close> act as on the empty string.)
\<close>

fun prev_website_scan :: "(string \<Rightarrow> bool) \<Rightarrow> (string \<Rightarrow> bool) \<Rightarrow> string option
    \<Rightarrow> (string \<times> string) list \<Rightarrow> string option \<Rightarrow> error + string option" where
  "prev_website_scan bh pre job [] site0 = Inr site0"
| "prev_website_scan bh pre job (a # as) site0 =
     (if pre (fst a) \<and> \<not> py_in ''linkedin.com'' (fst a)
         \<and> (py_in ''website'' (py_lower (snd a)) \<or> py_in ''company website'' (py_lower (snd a))
              \<or> 1 \<le> count_list (domain_of bh (fst a)) CHR ''.'')
      then prev_normalize_url bh (or_empty job) (Some (fst a))
      else prev_website_scan bh pre job as site0)"

text \<open>
  The Playwright block of \<open>parse_linkedin_job\<close>, which runs under \<open>try\<close>: an
  exception keeps what was assigned before it.
\<close>

definition prev_rendered :: "env \<Rightarrow> string option \<Rightarrow> world
    \<Rightarrow> (string option \<times> string option) \<times> world" where
  "prev_rendered ev job w =
     (case job of
        None \<Rightarrow> ((None, None), w)
      | Some u \<Rightarrow>
          (case perform (net ev) (Render u) w of
             (Resp status final content, w') \<Rightarrow>
               (let sp = bs ev content;
                    og = (case og_property sp of Some c \<Rightarrow> Some c | None \<Rightarrow> og_name sp);
                    name1 = (case og of
                               Some (Some c) \<Rightarrow> if c \<noteq> [] then Some (py_strip c) else None
                             | _ \<Rightarrow> None)
                in case (if \<not> truthy name1
                         then (case title_string sp of
                                 None \<Rightarrow> Inr name1
                               | Some ts \<Rightarrow> bind_err (title_name ts) (\<lambda>n. Inr (Some n)))
                         else Inr name1) of
                     Inl e \<Rightarrow> ((name1, None), w')
                   | Inr name2 \<Rightarrow>
                       (case prev_website_scan (bracketed_host_ok ev) (py_in ''http'') job
                               (anchors sp) None of
                          Inl e \<Rightarrow> ((name2, None), w')
                        | Inr site \<Rightarrow> ((name2, site), w')))
           | (_, w') \<Rightarrow> ((None, None), w')))"

definition prev_parse_linkedin_job :: "env \<Rightarrow> string option \<Rightarrow> bool
    \<Rightarrow> (string option \<times> string option) io" where
  "prev_parse_linkedin_job ev job use_playwright w =
     (case (if use_playwright \<and> PLAYWRIGHT_AVAILABLE ev then prev_rendered ev job w
            else ((None, None), w)) of
        ((name0, site0), w1) \<Rightarrow>
          if \<not> truthy name0 \<or> \<not> truthy site0
          then (case safe_get_opt (net ev) job w1 of
                  (None, w2) \<Rightarrow> (Inr (name0, site0), w2)
                | (Some (status, final, text), w2) \<Rightarrow>
                    (bind_err (prev_company_name (bs ev text) name0) (\<lambda>name.
                     bind_err (prev_website_scan (bracketed_host_ok ev) (\<lambda>h. startswith h ''http'')
                                 job (anchors (bs ev text)) site0) (\<lambda>site.
                     Inr (name, site))), w2))
          else (Inr (name0, site0), w1))"

text \<open>The path loop of the earlier \<open>find_career_page\<close>: status 200 and a career keyword.\<close>

fun prev_probe_paths :: "env \<Rightarrow> string \<Rightarrow> string list \<Rightarrow> string option io" where
  "prev_probe_paths ev origin [] w = (Inr None, w)"
| "prev_probe_paths ev origin (p # ps) w =
     (case urljoin (bracketed_host_ok ev) origin p of
        Inl e \<Rightarrow> (Inl e, w)
      | Inr candidate \<Rightarrow>
          (case safe_get (net ev) candidate w of
             (Some (status, final, text), w') \<Rightarrow>
               if status = 200 \<and> any_in prev_CAREER_KEYWORDS (py_lower text)
               then (Inr (Some candidate), w')
               else prev_probe_paths ev origin ps w'
           | (None, w') \<Rightarrow> prev_probe_paths ev origin ps w'))"

text \<open>The homepage loop: the first keyword anchor whose normalized URL answers with 200.\<close>

fun prev_homepage_scan :: "env \<Rightarrow> string \<Rightarrow> (string \<times> string) list \<Rightarrow> string option io" where
  "prev_homepage_scan ev origin [] w = (Inr None, w)"
| "prev_homepage_scan ev origin (a # as) w =
     (case prev_normalize_url (bracketed_host_ok ev) origin (Some (fst a)) of
        Inl e \<Rightarrow> (Inl e, w)
      | Inr full \<Rightarrow>
          if any_in prev_CAREER_KEYWORDS (py_lower (fst a))
             \<or> any_in prev_CAREER_KEYWORDS (py_lower (snd a))
          then (case safe_get_opt (net ev) full w of
                  (Some (status, final, text), w') \<Rightarrow>
                    if status = 200 then (Inr full, w') else prev_homepage_scan ev origin as w'
                | (None, w') \<Rightarrow> prev_homepage_scan ev origin as w')
          else prev_homepage_scan ev origin as w)"

definition prev_career_paths :: "string list" where
  "prev_career_paths = [''/careers'', ''/jobs'', ''/careers/'', ''/jobs/'', ''/careers.html'',
     ''/careers/positions'', ''/careers/openings'', ''/careers-us'']"

definition prev_find_career_page :: "env \<Rightarrow> string option \<Rightarrow> string option io" where
  "prev_find_career_page ev company_site_url =
     (if \<not> truthy company_site_url then io_val (Inr None)
      else
        let base = (if startswith (or_empty company_site_url) ''http''
                    then or_empty company_site_url
                    else ''https://'' @ or_empty company_site_url)
        in io_bind (io_val (urlparse (bracketed_host_ok ev) [] base)) (\<lambda>parsed.
           let base_origin = scheme parsed @ ''://'' @ netloc parsed
           in io_bind (prev_probe_paths ev base_origin prev_career_paths) (\<lambda>by_path.
              case by_path of
                Some candidate \<Rightarrow> io_val (Inr (Some candidate))
              | None \<Rightarrow>
                  io_bind (io_ok (safe_get (net ev) base_origin)) (\<lambda>r.
                  case r of
                    None \<Rightarrow> io_val (Inr None)
                  | Some (status, final, text) \<Rightarrow>
                      prev_homepage_scan ev base_origin (anchors (bs ev text))))))"

text \<open>
  The anchor loop of the earlier \<open>extract_one_job_from_career\<close> (a case-sensitive
  \<open>javascript:\<close> test), and the function, whose last statement is
  \<open>return career_url  # fallback to career page itself if ATS\<close>.
\<close>

fun prev_job_anchor_scan :: "(string \<Rightarrow> bool) \<Rightarrow> string \<Rightarrow> (string \<times> string) list
    \<Rightarrow> error + string option" where
  "prev_job_anchor_scan bh career_url [] = Inr None"
| "prev_job_anchor_scan bh career_url (a # as) =
     (if any_in prev_JOB_KEYWORDS (py_lower (fst a)) \<or> any_in prev_JOB_KEYWORDS (py_lower (snd a))
      then bind_err (prev_normalize_url bh career_url (Some (fst a))) (\<lambda>candidate.
             if truthy candidate
                \<and> \<not> startswith (or_empty candidate) ''javascript:''
                \<and> \<not> py_in ''mailto:'' (or_empty candidate)
             then Inr candidate
             else prev_job_anchor_scan bh career_url as)
      else prev_job_anchor_scan bh career_url as)"

definition prev_extract_one_job_from_career :: "env \<Rightarrow> string \<Rightarrow> string option io" where
  "prev_extract_one_job_from_career ev career_url =
     io_bind (io_ok (safe_get (net ev) career_url)) (\<lambda>r.
     case r of
       None \<Rightarrow> io_val (Inr None)
     | Some (status, final, text) \<Rightarrow>
         io_bind (io_val (prev_job_anchor_scan (bracketed_host_ok ev) career_url
                            (anchors (bs ev text)))) (\<lambda>hit.
         case hit of
           Some candidate \<Rightarrow> io_val (Inr (Some candidate))
         | None \<Rightarrow> io_val (Inr (Some career_url))))"

text \<open>
  \<open>scrape_linkedin_jobs_search\<close>: scroll until the page height stops changing (at most 20
  times), then one pass over the anchors; the \<open>href\<close> is normalized as it is.
\<close>

fun prev_scroll_loop :: "env \<Rightarrow> string \<Rightarrow> nat \<Rightarrow> int option \<Rightarrow> unit io" where
  "prev_scroll_loop ev search_url 0 prev_height w = (Inr (), w)"
| "prev_scroll_loop ev search_url (Suc n) prev_height w =
     (case perform (net ev) (ScrollHeight search_url) w of
        (Height curr_height, w') \<Rightarrow>
          if prev_height = Some curr_height then (Inr (), w')
          else prev_scroll_loop ev search_url n (Some curr_height) w'
      | (_, w') \<Rightarrow> (Inl PlaywrightError, w'))"

fun prev_collect_job_urls :: "(string \<Rightarrow> bool) \<Rightarrow> string \<Rightarrow> (string \<times> string) list
    \<Rightarrow> string option list \<Rightarrow> error + string option list" where
  "prev_collect_job_urls bh search_url [] job_urls = Inr job_urls"
| "prev_collect_job_urls bh search_url (a # as) job_urls =
     (if py_in ''/jobs/view/'' (fst a)
      then bind_err (prev_normalize_url bh search_url (Some (fst a)))
             (\<lambda>full. prev_collect_job_urls bh search_url as (List.insert full job_urls))
      else prev_collect_job_urls bh search_url as job_urls)"

definition scrape_linkedin_jobs_search :: "env \<Rightarrow> string \<Rightarrow> bool \<Rightarrow> string option list io" where
  "scrape_linkedin_jobs_search ev search_url use_playwright w =
     (if use_playwright \<and> PLAYWRIGHT_AVAILABLE ev
      then (case perform (net ev) (Goto search_url) w of
              (Resp status final content0, w1) \<Rightarrow>
                (case prev_scroll_loop ev search_url 20 None w1 of
                   (Inl e, w2) \<Rightarrow> (Inl e, w2)
                 | (Inr u, w2) \<Rightarrow>
                     (case perform (net ev) (Content search_url) w2 of
                        (Resp status2 final2 content, w3) \<Rightarrow>
                          (prev_collect_job_urls (bracketed_host_ok ev) search_url
                             (anchors (bs ev content)) [], w3)
                      | (_, w3) \<Rightarrow> (Inl PlaywrightError, w3)))
            | (_, w1) \<Rightarrow> (Inl PlaywrightError, w1))
      else (Inr [], w))"

text \<open>
  \<open>run_agent\<close>: one row per posting, appended to \<open>results\<close> whatever the fields hold;
  the CSV file is written once at the end (mode \<open>w\<close>: the file is then exactly the
  results), so an exception on the way leaves it as it was.
\<close>

definition prev_guessed_site :: "string \<Rightarrow> string" where
  "prev_guessed_site name =
     ''https://www.'' @ py_lower (filter (\<lambda>c. \<not> py_isspace c) name) @ ''.com''"

definition prev_row :: "env \<Rightarrow> string option \<Rightarrow> row io" where
  "prev_row ev job =
     io_bind (prev_parse_linkedin_job ev job True) (\<lambda>(name, site0).
     let site = (if \<not> truthy site0 \<and> truthy name then Some (prev_guessed_site (or_empty name))
                 else site0)
     in io_bind (prev_find_career_page ev site) (\<lambda>cp.
        io_bind (if truthy cp then prev_extract_one_job_from_career ev (or_empty cp)
                 else io_val (Inr None)) (\<lambda>job_post_url.
        io_val (Inr \<lparr>company_name = or_empty name, company_website = or_empty site,
                      career_page = or_empty cp, job_url = or_empty job_post_url\<rparr>))))"

fun prev_rows :: "env \<Rightarrow> string option list \<Rightarrow> row list \<Rightarrow> row list io" where
  "prev_rows ev [] results w = (Inr results, w)"
| "prev_rows ev (j # js) results w =
     io_bind (prev_row ev j) (\<lambda>r. prev_rows ev js (results @ [r])) w"

definition run_agent :: "env \<Rightarrow> string \<Rightarrow> unit io" where
  "run_agent ev search_url =
     io_bind (scrape_linkedin_jobs_search ev search_url True) (\<lambda>job_urls.
     io_bind (prev_rows ev job_urls []) (\<lambda>results.
     io_ok (\<lambda>w. ((), w\<lparr>sink := results\<rparr>))))"

section \<open>Concrete runs\<close>

text \<open>The inputs at which the theorems below are instantiated.\<close>

definition world0 :: world where
  "world0 = \<lparr>requests_made = [], sink = [], stdout = []\<rparr>"

definition no_soup :: soup where
  "no_soup = \<lparr>og_property = None, og_name = None, title_string = None, anchors = [],
     footer_anchors = None, scripts = [], result_a = None\<rparr>"

text \<open>
  A run of \<open>process_single_job\<close> on a posting of a company whose name is
  \<open>LinkedIn.com\<close>: the posting page has that \<open>og:site_name\<close> and no external link,
  the web search fails, the guessed site answers with a homepage that links to a career
  page on another host, and that page mentions open jobs.
\<close>

definition leak_job :: string where
  "leak_job = ''https://www.linkedin.com/jobs/view/1''"

definition leak_web :: web where
  "leak_web h r =
     (case r of
        Get u \<Rightarrow>
          if u = ''https://www.linkedin.com/jobs/view/1'' then Resp 200 u ''posting''
          else if u = ''https://www.linkedin.com'' then Resp 200 u ''home''
          else if u = ''https://careers.acme.example/'' then Resp 200 u ''open jobs''
          else Resp 404 u []
      | _ \<Rightarrow> Raised)"

definition leak_bs :: "string \<Rightarrow> soup" where
  "leak_bs t =
     (if t = ''posting'' then no_soup\<lparr>og_property := Some (Some ''LinkedIn.com'')\<rparr>
      else if t = ''home''
      then no_soup\<lparr>anchors := [(''https://careers.acme.example/'', ''Careers'')]\<rparr>
      else no_soup)"

definition leak_env :: env where
  "leak_env = \<lparr>net = leak_web, bs = leak_bs, PLAYWRIGHT_AVAILABLE = False,
     bracketed_host_ok = (\<lambda>h. True), stdout_encodes = (\<lambda>c. True)\<rparr>"

text \<open>
  A run of the earlier \<open>run_agent\<close>: the listing shows one posting, and nothing about
  that posting can be fetched.
\<close>

definition listing_url :: string where
  "listing_url = ''https://www.linkedin.com/jobs/search/''"

definition dead_web :: web where
  "dead_web h r =
     (case r of
        Goto u \<Rightarrow> Resp 200 u []
      | ScrollHeight u \<Rightarrow> Height 100
      | Content u \<Rightarrow> Resp 200 u ''listing''
      | _ \<Rightarrow> Raised)"

definition dead_bs :: "string \<Rightarrow> soup" where
  "dead_bs t =
     (if t = ''listing'' then no_soup\<lparr>anchors := [(''/jobs/view/123'', ''Engineer'')]\<rparr>
      else no_soup)"

definition dead_env :: env where
  "dead_env = \<lparr>net = dead_web, bs = dead_bs, PLAYWRIGHT_AVAILABLE = True,
     bracketed_host_ok = (\<lambda>h. True), stdout_encodes = (\<lambda>c. True)\<rparr>"

text \<open>A network where every HEAD request lands on \<open>linkedin.community\<close>.\<close>

definition community_web :: web where
  "community_web h r =
     (case r of Head u \<Rightarrow> Resp 200 ''https://linkedin.community/'' [] | _ \<Rightarrow> Raised)"

definition community_env :: env where
  "community_env = \<lparr>net = community_web, bs = (\<lambda>t. no_soup), PLAYWRIGHT_AVAILABLE = False,
     bracketed_host_ok = (\<lambda>h. True), stdout_encodes = (\<lambda>c. True)\<rparr>"

text \<open>
  A career page on the company's own host, with no anchors; nothing else on the host
  answers.
\<close>

definition plain_career :: string where
  "plain_career = ''https://acme.example/careers''"

definition plain_web :: web where
  "plain_web h r =
     (case r of
        Get u \<Rightarrow> if u = ''https://acme.example/careers'' then Resp 200 u ''About us''
                 else Resp 404 u []
      | _ \<Rightarrow> Raised)"

definition plain_env :: env where
  "plain_env = \<lparr>net = plain_web, bs = (\<lambda>t. no_soup), PLAYWRIGHT_AVAILABLE = False,
     bracketed_host_ok = (\<lambda>h. True), stdout_encodes = (\<lambda>c. True)\<rparr>"

text \<open>
  A listing page that shows no posting after the first scroll and one posting after every
  later scroll.
\<close>

definition slow_web :: web where
  "slow_web h r =
     (case r of
        Goto u \<Rightarrow> Resp 200 u []
      | Scroll u \<Rightarrow> if Scroll u \<in> set h then Resp 200 u ''loaded'' else Resp 200 u ''empty''
      | _ \<Rightarrow> Raised)"

definition slow_bs :: "string \<Rightarrow> soup" where
  "slow_bs t =
     (if t = ''loaded'' then no_soup\<lparr>anchors := [(''/jobs/view/7?refId=x'', ''Engineer'')]\<rparr>
      else no_soup)"

definition slow_env :: env where
  "slow_env = \<lparr>net = slow_web, bs = slow_bs, PLAYWRIGHT_AVAILABLE = True,
     bracketed_host_ok = (\<lambda>h. True), stdout_encodes = (\<lambda>c. True)\<rparr>"

text \<open>
  A run of \<open>process_single_job\<close> on a posting of a company whose name ends in the
  letter e with an acute accent (code point 233), with a standard output in ASCII: every
  HEAD and GET request is answered by the page asked for, the posting page names the
  company and links to its site, and every other page has one job link.
\<close>

definition cafe_job :: string where
  "cafe_job = ''https://www.linkedin.com/jobs/view/9''"

definition cafe_name :: string where
  "cafe_name = ''Caf'' @ [CHR 0xE9]"

definition cafe_web :: web where
  "cafe_web h r =
     (case r of
        Head u \<Rightarrow> Resp 200 u []
      | Get u \<Rightarrow> Resp 200 u (if u = cafe_job then ''posting'' else ''careers'')
      | _ \<Rightarrow> Raised)"

definition cafe_bs :: "string \<Rightarrow> soup" where
  "cafe_bs t =
     (if t = ''posting''
      then no_soup\<lparr>og_property := Some (Some cafe_name),
                    anchors := [(''https://acme.example'', ''Visit'')]\<rparr>
      else no_soup\<lparr>anchors := [(''/jobs/1'', ''Engineer'')]\<rparr>)"

definition cafe_env :: env where
  "cafe_env = \<lparr>net = cafe_web, bs = cafe_bs, PLAYWRIGHT_AVAILABLE = False,
     bracketed_host_ok = (\<lambda>h. True), stdout_encodes = (\<lambda>c. (of_char c :: nat) < 128)\<rparr>"

definition cafe_row :: row where
  "cafe_row = \<lparr>company_name = cafe_name, company_website = ''https://acme.example'',
     career_page = ''https://acme.example/careers'', job_url = ''https://acme.example/jobs/1''\<rparr>"

text \<open>A network where every HEAD request is answered 404 and every GET lands on one page.\<close>

definition head_404_web :: web where
  "head_404_web h r =
     (case r of
        Head u \<Rightarrow> Resp 404 u []
      | Get u \<Rightarrow> Resp 200 ''https://acme.example/'' []
      | _ \<Rightarrow> Raised)"

text \<open>A network where every HEAD request raises and every GET is answered 503.\<close>

definition both_fail_web :: web where
  "both_fail_web h r = (case r of Get u \<Rightarrow> Resp 503 u [] | _ \<Rightarrow> Raised)"

section \<open>Notions used in the statements\<close>

text \<open>\<open>s.endswith(p)\<close>.\<close>

definition endswith :: "string \<Rightarrow> string \<Rightarrow> bool" where
  "endswith s p = (length p \<le> length s \<and> drop (length s - length p) s = p)"

text \<open>A step that leaves the CSV file as it found it.\<close>

definition keeps_sink :: "(world \<Rightarrow> 'a \<times> world) \<Rightarrow> bool" where
  "keeps_sink m = (\<forall>w. sink (snd (m w)) = sink w)"

section \<open>Properties\<close>

subsection \<open>The CSV file is written by \<open>save_row\<close> only\<close>

lemma keeps_sinkI: "(\<And>w. sink (snd (m w)) = sink w) \<Longrightarrow> keeps_sink m"
  by (simp add: keeps_sink_def)

lemma keeps_sinkD: "keeps_sink m \<Longrightarrow> m w = (a, w') \<Longrightarrow> sink w' = sink w"
  by (metis keeps_sink_def snd_conv)

lemma keeps_sink_perform: "keeps_sink (perform wb r)"
  by (simp add: keeps_sink_def perform_def)

lemma keeps_sink_io_val: "keeps_sink (io_val x)"
  by (simp add: keeps_sink_def io_val_def)

lemma keeps_sink_io_ok: "keeps_sink m \<Longrightarrow> keeps_sink (io_ok m)"
proof (rule keeps_sinkI)
  fix w
  assume k: "keeps_sink m"
  obtain a w1 where m: "m w = (a, w1)" by (cases "m w")
  with k have "sink w1 = sink w" by (rule keeps_sinkD)
  with m show "sink (snd (io_ok m w)) = sink w" by (simp add: io_ok_def)
qed

lemma keeps_sink_io_bind:
  assumes "keeps_sink m" and "\<And>a. keeps_sink (f a)"
  shows "keeps_sink (io_bind m f)"
proof (rule keeps_sinkI)
  fix w
  obtain r w1 where m: "m w = (r, w1)" by (cases "m w")
  with assms(1) have s1: "sink w1 = sink w" by (rule keeps_sinkD)
  show "sink (snd (io_bind m f w)) = sink w"
  proof (cases r)
    case (Inl e)
    with m s1 show ?thesis by (simp add: io_bind_def)
  next
    case (Inr a)
    from assms(2) [of a] have "sink (snd (f a w1)) = sink w1" by (simp add: keeps_sink_def)
    with m s1 Inr show ?thesis by (simp add: io_bind_def)
  qed
qed

lemma sink_perform [simp]: "sink (snd (perform wb r w)) = sink w"
  by (simp add: perform_def)

lemma sink_safe_get_loop [simp]: "sink (snd (safe_get_loop wb url n w)) = sink w"
proof (induction n arbitrary: w)
  case 0
  then show ?case by simp
next
  case (Suc n)
  obtain r w1 where p: "perform wb (Get url) w = (r, w1)" by (cases "perform wb (Get url) w")
  then have s1: "sink w1 = sink w" by (metis sink_perform snd_conv)
  from p s1 Suc.IH [of w1] show ?case
    by (cases r) auto
qed

lemma keeps_sink_safe_get: "keeps_sink (safe_get wb url)"
  by (simp add: keeps_sink_def safe_get_def)

lemma keeps_sink_safe_get_opt: "keeps_sink (safe_get_opt wb url)"
  using keeps_sink_safe_get
  by (cases url) (simp_all add: keeps_sink_def safe_get_opt_def)

lemma keeps_sink_resolve_final_url: "keeps_sink (resolve_final_url wb url)"
  by (auto simp: keeps_sink_def resolve_final_url_def perform_def
      split: option.splits prod.splits)

lemma keeps_sink_render: "keeps_sink (render_linkedin_job_with_playwright ev job)"
  by (auto simp: keeps_sink_def render_linkedin_job_with_playwright_def perform_def
      split: option.splits prod.splits outcome.splits)

lemma keeps_sink_extract_requests: "keeps_sink (extract_linkedin_job_requests ev job)"
proof (rule keeps_sinkI)
  fix w
  obtain r w1 where g: "safe_get_opt (net ev) job w = (r, w1)"
    by (cases "safe_get_opt (net ev) job w")
  with keeps_sink_safe_get_opt have "sink w1 = sink w" by (rule keeps_sinkD)
  with g show "sink (snd (extract_linkedin_job_requests ev job w)) = sink w"
    by (auto simp: extract_linkedin_job_requests_def split: option.splits)
qed

lemma keeps_sink_search: "keeps_sink (search_company_site_duckduckgo ev name)"
  by (auto simp: keeps_sink_def search_company_site_duckduckgo_def perform_def
      split: option.splits prod.splits outcome.splits)

lemma keeps_sink_probe_paths: "keeps_sink (probe_paths ev base kws ps)"
proof (rule keeps_sinkI)
  fix w
  show "sink (snd (probe_paths ev base kws ps w)) = sink w"
  proof (induction ps arbitrary: w)
    case Nil
    then show ?case by simp
  next
    case (Cons p ps)
    show ?case
    proof (cases "urljoin (bracketed_host_ok ev) base p")
      case (Inl e)
      then show ?thesis by simp
    next
      case (Inr candidate)
      obtain r w1 where g: "safe_get (net ev) candidate w = (r, w1)"
        by (cases "safe_get (net ev) candidate w")
      with keeps_sink_safe_get have "sink w1 = sink w" by (rule keeps_sinkD)
      with g Inr Cons.IH [of w1] show ?thesis
        by (auto split: option.splits)
    qed
  qed
qed

lemma keeps_sink_first_career_hit: "keeps_sink (first_career_hit ev as)"
proof (rule keeps_sinkI)
  fix w
  show "sink (snd (first_career_hit ev as w)) = sink w"
  proof (induction as arbitrary: w)
    case Nil
    then show ?case by simp
  next
    case (Cons a as)
    obtain r w1 where g: "safe_get (net ev) (fst a) w = (r, w1)"
      by (cases "safe_get (net ev) (fst a) w")
    with keeps_sink_safe_get have "sink w1 = sink w" by (rule keeps_sinkD)
    with g Cons.IH [of w1] show ?case
      by (auto split: option.splits)
  qed
qed

lemma keeps_sink_footer_scan: "keeps_sink (footer_scan ev base as)"
proof (rule keeps_sinkI)
  fix w
  show "sink (snd (footer_scan ev base as w)) = sink w"
  proof (induction as arbitrary: w)
    case Nil
    then show ?case by simp
  next
    case (Cons a as)
    show ?case
    proof (cases "normalize_url (bracketed_host_ok ev) base (Some (fst a))")
      case (Inl e)
      then show ?thesis by simp
    next
      case (Inr full)
      obtain r w1 where g: "safe_get (net ev) (or_empty full) w = (r, w1)"
        by (cases "safe_get (net ev) (or_empty full) w")
      with keeps_sink_safe_get have "sink w1 = sink w" by (rule keeps_sinkD)
      with g Inr Cons.IH [of w1] Cons.IH [of w] show ?thesis
        by (auto split: option.splits)
    qed
  qed
qed

lemma keeps_sink_find_career_page: "keeps_sink (find_career_page ev url)"
  unfolding find_career_page_def Let_def
  by (intro keeps_sink_io_bind keeps_sink_io_val keeps_sink_io_ok keeps_sink_resolve_final_url
      keeps_sink_probe_paths keeps_sink_safe_get keeps_sink_first_career_hit
      keeps_sink_footer_scan
      | simp split: option.split prod.split | intro conjI allI impI)+


lemma keeps_sink_extract_one_job: "keeps_sink (extract_one_job_from_career ev url)"
  unfolding extract_one_job_from_career_def Let_def
  by (intro keeps_sink_io_bind keeps_sink_io_val keeps_sink_io_ok keeps_sink_probe_paths
      keeps_sink_safe_get
      | simp split: option.split prod.split | intro conjI allI impI)+

lemma keeps_sink_step_AB: "keeps_sink (step_AB ev job up)"
proof (rule keeps_sinkI)
  fix w
  let ?m = "if up \<and> PLAYWRIGHT_AVAILABLE ev
            then render_linkedin_job_with_playwright ev job w else ((None, None), w)"
  obtain cname csite w1 where m: "?m = ((cname, csite), w1)"
    by (cases ?m) auto
  have s1: "sink w1 = sink w"
  proof (cases "up \<and> PLAYWRIGHT_AVAILABLE ev")
    case True
    with m have "render_linkedin_job_with_playwright ev job w = ((cname, csite), w1)" by simp
    with keeps_sink_render show ?thesis by (rule keeps_sinkD)
  next
    case False
    with m show ?thesis by auto
  qed
  obtain c2 s2 w2 where e: "extract_linkedin_job_requests ev job w1 = ((c2, s2), w2)"
    by (cases "extract_linkedin_job_requests ev job w1") auto
  with keeps_sink_extract_requests have s2: "sink w2 = sink w1" by (rule keeps_sinkD)
  from m e s1 s2 show "sink (snd (step_AB ev job up w)) = sink w"
    by (simp add: step_AB_def Let_def)
qed

lemma keeps_sink_if:
  "keeps_sink a \<Longrightarrow> keeps_sink b \<Longrightarrow> keeps_sink (if c then a else b)"
  by simp

lemma keeps_sink_step_C: "keeps_sink (step_C ev site)"
  unfolding step_C_def
  by (intro keeps_sink_io_bind keeps_sink_io_val keeps_sink_io_ok keeps_sink_resolve_final_url
      keeps_sink_if)

lemma keeps_sink_step_D: "keeps_sink (step_D ev name site)"
  unfolding step_D_def
  by (intro keeps_sink_io_bind keeps_sink_io_val keeps_sink_io_ok keeps_sink_resolve_final_url
      keeps_sink_search keeps_sink_if)

lemma keeps_sink_step_F: "keeps_sink (step_F ev site)"
  unfolding step_F_def
  by (intro keeps_sink_io_bind keeps_sink_io_val keeps_sink_find_career_page keeps_sink_if)

lemma keeps_sink_step_G: "keeps_sink (step_G ev cp)"
  unfolding step_G_def
  by (intro keeps_sink_io_bind keeps_sink_io_val keeps_sink_extract_one_job keeps_sink_if)


lemma process_single_job_run:
  assumes "step_AB ev job up w = ((name, s0), w1)"
    and "step_C ev s0 w1 = (Inr s1, w2)"
    and "step_D ev name s1 w2 = (Inr s2, w3)"
    and "step_F ev (step_E name s2) w3 = (Inr cp, w4)"
    and "step_G ev cp w4 = (Inr jo, w5)"
  shows "process_single_job ev job up w =
     (let r = \<lparr>company_name = or_empty name, company_website = or_empty (step_E name s2),
                career_page = or_empty cp, job_url = or_empty jo\<rparr>
      in if \<not> truthy cp then (Inr None, w5)
         else if list_all (stdout_encodes ev) (row_line r)
         then (Inr (Some r), w5\<lparr>sink := sink w5 @ [r], stdout := stdout w5 @ [row_line r]\<rparr>)
         else (Inl UnicodeEncodeError, w5\<lparr>sink := sink w5 @ [r]\<rparr>))"
  using assms
  by (simp add: process_single_job_def io_bind_def io_ok_def io_val_def save_row_def
      py_print_def Let_def)

lemma process_single_job_sink:
  assumes run: "process_single_job ev job up w = (res, w')"
  shows "case res of
           Inr (Some r) \<Rightarrow> sink w' = sink w @ [r] \<and> career_page r \<noteq> []
         | Inr None \<Rightarrow> sink w' = sink w
         | Inl e \<Rightarrow>
             sink w' = sink w
             \<or> (e = UnicodeEncodeError
                \<and> (\<exists>r. sink w' = sink w @ [r] \<and> career_page r \<noteq> []
                        \<and> \<not> list_all (stdout_encodes ev) (row_line r)))"
proof -
  obtain name s0 w1 where ab: "step_AB ev job up w = ((name, s0), w1)"
    by (cases "step_AB ev job up w") auto
  with keeps_sink_step_AB have k1: "sink w1 = sink w" by (rule keeps_sinkD)
  obtain rc w2 where c: "step_C ev s0 w1 = (rc, w2)" by (cases "step_C ev s0 w1")
  with keeps_sink_step_C have k2: "sink w2 = sink w1" by (rule keeps_sinkD)
  show ?thesis
  proof (cases rc)
    case (Inl e)
    with run ab c k1 k2 show ?thesis
      by (auto simp: process_single_job_def io_bind_def io_ok_def)
  next
    case rcI: (Inr s1)
    obtain rd w3 where d: "step_D ev name s1 w2 = (rd, w3)" by (cases "step_D ev name s1 w2")
    with keeps_sink_step_D have k3: "sink w3 = sink w2" by (rule keeps_sinkD)
    show ?thesis
    proof (cases rd)
      case (Inl e)
      with run ab c d rcI k1 k2 k3 show ?thesis
        by (auto simp: process_single_job_def io_bind_def io_ok_def)
    next
      case rdI: (Inr s2)
      obtain rf w4 where f: "step_F ev (step_E name s2) w3 = (rf, w4)"
        by (cases "step_F ev (step_E name s2) w3")
      with keeps_sink_step_F have k4: "sink w4 = sink w3" by (rule keeps_sinkD)
      show ?thesis
      proof (cases rf)
        case (Inl e)
        with run ab c d f rcI rdI k1 k2 k3 k4 show ?thesis
          by (auto simp: process_single_job_def io_bind_def io_ok_def Let_def)
      next
        case rfI: (Inr cp)
        obtain rg w5 where g: "step_G ev cp w4 = (rg, w5)" by (cases "step_G ev cp w4")
        with keeps_sink_step_G have k5: "sink w5 = sink w4" by (rule keeps_sinkD)
        show ?thesis
        proof (cases rg)
          case (Inl e)
          with run ab c d f g rcI rdI rfI k1 k2 k3 k4 k5 show ?thesis
            by (auto simp: process_single_job_def io_bind_def io_ok_def Let_def)
        next
          case rgI: (Inr jo)
          from process_single_job_run [OF ab c [unfolded rcI] d [unfolded rdI]
              f [unfolded rfI] g [unfolded rgI]] run k1 k2 k3 k4 k5
          show ?thesis
            by (auto simp: truthy_def or_empty_def Let_def split: option.splits if_splits)
        qed
      qed
    qed
  qed
qed

lemma prev_rows_length:
  "prev_rows ev js results w = (Inr rows, w') \<Longrightarrow> length rows = length results + length js"
proof (induction js arbitrary: results w)
  case Nil
  then show ?case by simp
next
  case (Cons j js)
  obtain r w1 where p: "prev_row ev j w = (r, w1)" by (cases "prev_row ev j w")
  show ?case
  proof (cases r)
    case (Inl e)
    with Cons.prems p show ?thesis by (simp add: io_bind_def)
  next
    case (Inr x)
    with Cons.prems p have "prev_rows ev js (results @ [x]) w1 = (Inr rows, w')"
      by (simp add: io_bind_def)
    from Cons.IH [OF this] show ?thesis by simp
  qed
qed

lemma run_agent_rows:
  assumes "run_agent ev url w = (Inr u, w')"
  shows "\<exists>job_urls w1. scrape_linkedin_jobs_search ev url True w = (Inr job_urls, w1)
           \<and> length (sink w') = length job_urls"
proof -
  obtain rs w1 where s: "scrape_linkedin_jobs_search ev url True w = (rs, w1)"
    by (cases "scrape_linkedin_jobs_search ev url True w")
  show ?thesis
  proof (cases rs)
    case (Inl e)
    with assms s show ?thesis by (simp add: run_agent_def io_bind_def)
  next
    case sI: (Inr job_urls)
    obtain rr w2 where r: "prev_rows ev job_urls [] w1 = (rr, w2)"
      by (cases "prev_rows ev job_urls [] w1")
    show ?thesis
    proof (cases rr)
      case (Inl e)
      with assms s sI r show ?thesis by (simp add: run_agent_def io_bind_def)
    next
      case (Inr rows)
      with r have "length rows = length job_urls"
        using prev_rows_length [of ev job_urls "[]" w1 rows w2] by simp
      with assms s sI r Inr show ?thesis
        by (auto simp: run_agent_def io_bind_def io_ok_def)
    qed
  qed
qed

subsection \<open>The two concrete runs\<close>

lemma leak_env_simps [simp]:
  "net leak_env = leak_web" "bs leak_env = leak_bs" "\<not> PLAYWRIGHT_AVAILABLE leak_env"
  "bracketed_host_ok leak_env = (\<lambda>h. True)" "stdout_encodes leak_env = (\<lambda>c. True)"
  by (simp_all add: leak_env_def)

lemma leak_get_fail:
  assumes "u \<noteq> ''https://www.linkedin.com/jobs/view/1''" "u \<noteq> ''https://www.linkedin.com''"
    "u \<noteq> ''https://careers.acme.example/''"
  shows "fst (safe_get leak_web u w) = None"
  using assms
  by (simp add: safe_get_def MAX_RETRIES_def eval_nat_numeral perform_def leak_web_def resp_ok_def)

lemma leak_get_ok:
  "fst (safe_get leak_web ''https://www.linkedin.com/jobs/view/1'' w)
     = Some (200, ''https://www.linkedin.com/jobs/view/1'', ''posting'')"
  "fst (safe_get leak_web ''https://www.linkedin.com'' w)
     = Some (200, ''https://www.linkedin.com'', ''home'')"
  "fst (safe_get leak_web ''https://careers.acme.example/'' w)
     = Some (200, ''https://careers.acme.example/'', ''open jobs'')"
  by (simp_all add: safe_get_def MAX_RETRIES_def eval_nat_numeral perform_def leak_web_def resp_ok_def)

lemma leak_name: "extract_company_name (leak_bs ''posting'') = Some ''LinkedIn.com''"
  by code_simp

lemma leak_no_link: "first_external_link (leak_bs ''posting'') avoid = None"
  by (simp add: first_external_link_def leak_bs_def no_soup_def)

lemma fst_pairE: "fst x = a \<Longrightarrow> (\<And>b. x = (a, b) \<Longrightarrow> P) \<Longrightarrow> P"
  by (cases x) auto

lemma leak_AB: "fst (step_AB leak_env (Some leak_job) up w) = (Some ''LinkedIn.com'', None)"
proof -
  from leak_get_ok(1) [of w] obtain w1 where
    "safe_get leak_web ''https://www.linkedin.com/jobs/view/1'' w
       = (Some (200, ''https://www.linkedin.com/jobs/view/1'', ''posting''), w1)"
    by (rule fst_pairE)
  then show ?thesis
    by (simp add: step_AB_def py_or_def truthy_def extract_linkedin_job_requests_def
        safe_get_opt_def leak_name leak_no_link leak_job_def)
qed

lemma leak_D: "fst (step_D leak_env (Some ''LinkedIn.com'') None w) = Inr None"
  by (simp add: step_D_def truthy_def or_empty_def io_bind_def io_ok_def io_val_def
      search_company_site_duckduckgo_def perform_def leak_web_def)

lemma leak_guess: "step_E (Some ''LinkedIn.com'') None = Some ''https://www.linkedin.com''"
  by code_simp


lemma leak_probe:
  assumes "list_all (\<lambda>p. case urljoin (\<lambda>h. True) base p of
                           Inl e \<Rightarrow> False
                         | Inr c \<Rightarrow> c \<noteq> ''https://www.linkedin.com/jobs/view/1''
                                    \<and> c \<noteq> ''https://www.linkedin.com''
                                    \<and> c \<noteq> ''https://careers.acme.example/'') ps"
  shows "fst (probe_paths leak_env base kws ps w) = Inr None"
  using assms
proof (induction ps arbitrary: w)
  case Nil
  then show ?case by simp
next
  case (Cons p ps)
  from Cons.prems obtain c where c: "urljoin (\<lambda>h. True) base p = Inr c"
    and ne: "c \<noteq> ''https://www.linkedin.com/jobs/view/1''" "c \<noteq> ''https://www.linkedin.com''"
      "c \<noteq> ''https://careers.acme.example/''"
    by (auto split: sum.splits)
  from leak_get_fail [OF ne, of w] obtain w1 where "safe_get leak_web c w = (None, w1)"
    by (rule fst_pairE)
  moreover from Cons.prems have "fst (probe_paths leak_env base kws ps w1) = Inr None"
    by (intro Cons.IH) simp
  ultimately show ?case using c by simp
qed

lemma leak_site_paths:
  "list_all (\<lambda>p. case urljoin (\<lambda>h. True) ''https://www.linkedin.com'' p of
                    Inl e \<Rightarrow> False
                  | Inr c \<Rightarrow> c \<noteq> ''https://www.linkedin.com/jobs/view/1''
                             \<and> c \<noteq> ''https://www.linkedin.com''
                             \<and> c \<noteq> ''https://careers.acme.example/'') career_paths"
  by code_simp

lemma leak_career_paths:
  "list_all (\<lambda>p. case urljoin (\<lambda>h. True) ''https://careers.acme.example'' p of
                    Inl e \<Rightarrow> False
                  | Inr c \<Rightarrow> c \<noteq> ''https://www.linkedin.com/jobs/view/1''
                             \<and> c \<noteq> ''https://www.linkedin.com''
                             \<and> c \<noteq> ''https://careers.acme.example/'') job_paths"
  by code_simp

lemma leak_parse_site:
  "urlparse (\<lambda>h. True) [] ''https://www.linkedin.com''
     = Inr \<lparr>scheme = ''https'', netloc = ''www.linkedin.com'', path = [], params = [],
            query = [], fragment = []\<rparr>"
  by code_simp

lemma leak_parse_career:
  "urlparse (\<lambda>h. True) [] ''https://careers.acme.example/''
     = Inr \<lparr>scheme = ''https'', netloc = ''careers.acme.example'', path = ''/'', params = [],
            query = [], fragment = []\<rparr>"
  by code_simp

lemma leak_anchors:
  "career_anchors (\<lambda>h. True) ''https://www.linkedin.com'' (anchors (leak_bs ''home''))
     = Inr [(''https://careers.acme.example/'', ''careers'')]"
  by code_simp

lemma leak_keyword: "any_in (CAREER_KEYWORDS @ JOB_KEYWORDS) (py_lower ''open jobs'')"
  by code_simp

lemma leak_resolve:
  "fst (resolve_final_url leak_web (Some ''https://www.linkedin.com'') w)
     = Some ''https://www.linkedin.com''"
  by (simp add: resolve_final_url_def perform_def leak_web_def tier_url_def resp_ok_def)

lemma leak_find:
  "fst (find_career_page leak_env (Some ''https://www.linkedin.com'') w)
     = Inr (Some ''https://careers.acme.example/'')"
proof -
  from leak_resolve [of w] obtain w1 where
    r: "resolve_final_url leak_web (Some ''https://www.linkedin.com'') w
          = (Some ''https://www.linkedin.com'', w1)"
    by (rule fst_pairE)
  from leak_probe [OF leak_site_paths, of "CAREER_KEYWORDS @ JOB_KEYWORDS" w1] obtain w2 where
    p: "probe_paths leak_env ''https://www.linkedin.com'' (CAREER_KEYWORDS @ JOB_KEYWORDS)
          career_paths w1 = (Inr None, w2)"
    by (rule fst_pairE)
  from leak_get_ok(2) [of w2] obtain w3 where
    g: "safe_get leak_web ''https://www.linkedin.com'' w2
          = (Some (200, ''https://www.linkedin.com'', ''home''), w3)"
    by (rule fst_pairE)
  from leak_get_ok(3) [of w3] obtain w4 where
    h: "safe_get leak_web ''https://careers.acme.example/'' w3
          = (Some (200, ''https://careers.acme.example/'', ''open jobs''), w4)"
    by (rule fst_pairE)
  show ?thesis
    using r p g h
    by (simp add: find_career_page_def io_bind_def io_ok_def io_val_def truthy_def or_empty_def
        leak_parse_site leak_anchors leak_keyword Let_def)
qed

lemma leak_career_not_linkedin:
  "is_linkedin_domain (\<lambda>h. True) (Some ''https://careers.acme.example/'') = Inr False"
  by code_simp

lemma leak_F:
  "fst (step_F leak_env (Some ''https://www.linkedin.com'') w)
     = Inr (Some ''https://careers.acme.example/'')"
proof -
  from leak_find [of w] obtain w1 where
    "find_career_page leak_env (Some ''https://www.linkedin.com'') w
       = (Inr (Some ''https://careers.acme.example/''), w1)"
    by (rule fst_pairE)
  then show ?thesis
    by (simp add: step_F_def io_bind_def io_val_def truthy_def leak_career_not_linkedin)
qed

lemma leak_not_ats: "is_ats_url (\<lambda>h. True) (Some ''https://careers.acme.example/'') = Inr False"
  by code_simp

lemma leak_G: "fst (step_G leak_env (Some ''https://careers.acme.example/'') w) = Inr None"
proof -
  from leak_get_ok(3) [of w] obtain w1 where
    g: "safe_get leak_web ''https://careers.acme.example/'' w
          = (Some (200, ''https://careers.acme.example/'', ''open jobs''), w1)"
    by (rule fst_pairE)
  from leak_probe [OF leak_career_paths, of JOB_KEYWORDS w1] obtain w2 where
    p: "probe_paths leak_env ''https://careers.acme.example'' JOB_KEYWORDS job_paths w1
          = (Inr None, w2)"
    by (rule fst_pairE)
  show ?thesis
    using g p
    by (simp add: step_G_def extract_one_job_from_career_def io_bind_def io_ok_def io_val_def
        truthy_def or_empty_def leak_bs_def no_soup_def leak_not_ats leak_parse_career Let_def)
qed

lemma leak_run:
  "fst (process_single_job leak_env (Some leak_job) True world0)
     = Inr (Some \<lparr>company_name = ''LinkedIn.com'', company_website = ''https://www.linkedin.com'',
                   career_page = ''https://careers.acme.example/'', job_url = []\<rparr>)"
proof -
  from leak_AB [of True world0] obtain w1 where
    ab: "step_AB leak_env (Some leak_job) True world0 = ((Some ''LinkedIn.com'', None), w1)"
    by (rule fst_pairE)
  have c: "step_C leak_env None w1 = (Inr None, w1)"
    by (simp add: step_C_def truthy_def io_val_def)
  from leak_D [of w1] obtain w3 where
    d: "step_D leak_env (Some ''LinkedIn.com'') None w1 = (Inr None, w3)"
    by (rule fst_pairE)
  from leak_F [of w3] obtain w4 where
    f: "step_F leak_env (step_E (Some ''LinkedIn.com'') None) w3
          = (Inr (Some ''https://careers.acme.example/''), w4)"
    unfolding leak_guess by (rule fst_pairE)
  from leak_G [of w4] obtain w5 where
    g: "step_G leak_env (Some ''https://careers.acme.example/'') w4 = (Inr None, w5)"
    by (rule fst_pairE)
  from process_single_job_run [OF ab c d f g] show ?thesis
    by (simp add: truthy_def or_empty_def leak_guess list_all_iff Let_def)
qed

lemma dead_urljoin:
  "urljoin (\<lambda>h. True) ''https://www.linkedin.com/jobs/search/'' ''/jobs/view/123''
     = Inr ''https://www.linkedin.com/jobs/view/123''"
  by code_simp

lemma dead_scrape:
  "fst (scrape_linkedin_jobs_search dead_env listing_url True w)
     = Inr [Some ''https://www.linkedin.com/jobs/view/123'']"
  by (simp add: scrape_linkedin_jobs_search_def dead_env_def dead_web_def dead_bs_def
      perform_def listing_url_def no_soup_def eval_nat_numeral prev_normalize_url_def
      truthy_def or_empty_def py_strip_def py_isspace_def startswith_def dead_urljoin
      bind_err_def)

lemma dead_row:
  "fst (prev_row dead_env (Some u) w)
     = Inr \<lparr>company_name = [], company_website = [], career_page = [], job_url = []\<rparr>"
  by (simp add: prev_row_def prev_parse_linkedin_job_def prev_rendered_def dead_env_def
      dead_web_def perform_def safe_get_opt_def safe_get_def MAX_RETRIES_def eval_nat_numeral
      io_bind_def io_val_def truthy_def or_empty_def prev_find_career_page_def
      split: prod.splits)


lemma dead_run:
  "sink (snd (run_agent dead_env listing_url world0))
     = [\<lparr>company_name = [], company_website = [], career_page = [], job_url = []\<rparr>]"
proof -
  from dead_scrape [of world0] obtain w1 where
    s: "scrape_linkedin_jobs_search dead_env listing_url True world0
          = (Inr [Some ''https://www.linkedin.com/jobs/view/123''], w1)"
    by (rule fst_pairE)
  from dead_row [of "''https://www.linkedin.com/jobs/view/123''" w1] obtain w2 where
    r: "prev_row dead_env (Some ''https://www.linkedin.com/jobs/view/123'') w1
          = (Inr \<lparr>company_name = [], company_website = [], career_page = [], job_url = []\<rparr>, w2)"
    by (rule fst_pairE)
  show ?thesis
    using s r by (simp add: run_agent_def io_bind_def io_ok_def)
qed

subsection \<open>C1: the guessed site is not checked\<close>

text \<open>
  C1 (the code departs from the claim). Steps C, D, F and G drop a URL that
  \<open>is_linkedin_domain\<close> accepts, but the site guessed in step E goes into the row
  unchecked: for a company named \<open>LinkedIn.com\<close> the emitted row has the company
  website \<open>https://www.linkedin.com\<close>, which \<open>is_linkedin_domain\<close> classifies as
  LinkedIn's own.
\<close>

theorem guessed_site_reaches_row:
  "fst (process_single_job leak_env (Some leak_job) True world0)
     = Inr (Some \<lparr>company_name = ''LinkedIn.com'', company_website = ''https://www.linkedin.com'',
                   career_page = ''https://careers.acme.example/'', job_url = []\<rparr>)
   \<and> is_linkedin_domain (bracketed_host_ok leak_env) (Some ''https://www.linkedin.com'') = Inr True"
proof -
  have "is_linkedin_domain (\<lambda>h. True) (Some ''https://www.linkedin.com'') = Inr True"
    by code_simp
  with leak_run show ?thesis by simp
qed

subsection \<open>C3: the redirect resolver\<close>


lemma resolve_final_url_cases:
  assumes "url \<noteq> []"
  shows "resolve_final_url wb (Some url) w =
     (let r1 = wb (requests_made w) (Head url);
          w1 = w\<lparr>requests_made := requests_made w @ [Head url]\<rparr>;
          r2 = wb (requests_made w1) (Get url);
          w2 = w1\<lparr>requests_made := requests_made w1 @ [Get url]\<rparr>
      in case tier_url r1 of
           Some u1 \<Rightarrow> (Some u1, w1)
         | None \<Rightarrow> (case tier_url r2 of Some u2 \<Rightarrow> (Some u2, w2) | None \<Rightarrow> (Some url, w2)))"
  using assms
  by (simp add: resolve_final_url_def truthy_def perform_def tier_url_def Let_def
      split: outcome.splits bool.splits)

subsection \<open>C10: the aggregator test is a substring test\<close>

lemma py_in_iff: "py_in p s \<longleftrightarrow> (\<exists>a b. s = a @ p @ b)"
proof (induction s)
  case Nil
  then show ?case by simp
next
  case (Cons c cs)
  show ?case
  proof
    assume "py_in p (c # cs)"
    then consider "startswith (c # cs) p" | "py_in p cs" by auto
    then show "\<exists>a b. c # cs = a @ p @ b"
    proof cases
      case 1
      then have "c # cs = [] @ p @ drop (length p) (c # cs)"
        unfolding startswith_def by (metis append_Nil append_take_drop_id)
      then show ?thesis by blast
    next
      case 2
      with Cons.IH obtain a b where "cs = a @ p @ b" by blast
      then have "c # cs = (c # a) @ p @ b" by simp
      then show ?thesis by blast
    qed
  next
    assume "\<exists>a b. c # cs = a @ p @ b"
    then obtain a b where ab: "c # cs = a @ p @ b" by blast
    show "py_in p (c # cs)"
    proof (cases a)
      case Nil
      with ab have "startswith (c # cs) p" by (simp add: startswith_def)
      then show ?thesis by simp
    next
      case (Cons x a')
      with ab have "cs = a' @ p @ b" by simp
      with Cons.IH have "py_in p cs" by blast
      then show ?thesis by simp
    qed
  qed
qed

lemma is_linkedin_domain_iff:
  "is_linkedin_domain bh url = Inr True \<longleftrightarrow>
     truthy url \<and> (\<exists>p a b. urlparse bh [] (or_empty url) = Inr p
        \<and> (py_lower (netloc p) = a @ ''linkedin.com'' @ b
             \<or> py_lower (netloc p) = a @ ''lnkd.in'' @ b))"
proof (cases "truthy url")
  case False
  then show ?thesis by (simp add: is_linkedin_domain_def)
next
  case True
  show ?thesis
  proof (cases "urlparse bh [] (or_empty url)")
    case (Inl e)
    with True show ?thesis by (simp add: is_linkedin_domain_def bind_err_def)
  next
    case (Inr p)
    with True show ?thesis
      by (simp add: is_linkedin_domain_def bind_err_def Let_def py_in_iff) blast
  qed
qed

lemma community_host:
  "is_linkedin_domain bh (Some ''https://linkedin.community/careers'') = Inr True"
  by code_simp

lemma step_C_discards:
  assumes "truthy site" and "resolve_final_url (net ev) site w = (final, w1)"
    and "is_linkedin_domain (bracketed_host_ok ev) final = Inr True"
  shows "step_C ev site w = (Inr None, w1)"
  using assms by (simp add: step_C_def io_bind_def io_ok_def io_val_def)

lemma step_D_discards:
  assumes "\<not> truthy site" and "truthy name"
    and "search_company_site_duckduckgo ev name w = (found, w1)" and "truthy found"
    and "resolve_final_url (net ev) found w1 = (final, w2)"
    and "is_linkedin_domain (bracketed_host_ok ev) final = Inr True"
  shows "step_D ev name site w = (Inr site, w2)"
  using assms by (simp add: step_D_def io_bind_def io_ok_def io_val_def)

lemma step_F_discards:
  assumes "truthy site" and "find_career_page ev site w = (Inr cp, w1)" and "truthy cp"
    and "is_linkedin_domain (bracketed_host_ok ev) cp = Inr True"
  shows "step_F ev site w = (Inr None, w1)"
  using assms by (simp add: step_F_def io_bind_def io_val_def)

lemma step_G_discards:
  assumes "truthy cp" and "extract_one_job_from_career ev cp w = (Inr jo, w1)" and "truthy jo"
    and "is_linkedin_domain (bracketed_host_ok ev) jo = Inr True"
  shows "step_G ev cp w = (Inr None, w1)"
  using assms by (simp add: step_G_def io_bind_def io_val_def)

text \<open>
  C10. \<open>is_linkedin_domain\<close> returns true exactly when the URL is non-empty, parses,
  and the lower-cased network location contains \<open>linkedin.com\<close> or \<open>lnkd.in\<close>
  somewhere; it returns false for \<open>None\<close> and for the empty string. So the host
  \<open>linkedin.community\<close> counts as LinkedIn's own, and a candidate on such a host is
  dropped by steps C, D, F and G like any LinkedIn URL.
\<close>

theorem is_linkedin_domain_substring_test:
  "(is_linkedin_domain bh url = Inr True \<longleftrightarrow>
      truthy url \<and> (\<exists>p a b. urlparse bh [] (or_empty url) = Inr p
         \<and> (py_lower (netloc p) = a @ ''linkedin.com'' @ b
              \<or> py_lower (netloc p) = a @ ''lnkd.in'' @ b)))
   \<and> is_linkedin_domain bh None = Inr False
   \<and> is_linkedin_domain bh (Some []) = Inr False
   \<and> is_linkedin_domain bh (Some ''https://linkedin.community/careers'') = Inr True
   \<and> (truthy site \<longrightarrow> resolve_final_url (net ev) site w = (final, w1) \<longrightarrow>
        is_linkedin_domain (bracketed_host_ok ev) final = Inr True \<longrightarrow>
        step_C ev site w = (Inr None, w1))
   \<and> (\<not> truthy site2 \<longrightarrow> truthy name \<longrightarrow>
        search_company_site_duckduckgo ev name w = (found, w2) \<longrightarrow> truthy found \<longrightarrow>
        resolve_final_url (net ev) found w2 = (final2, w3) \<longrightarrow>
        is_linkedin_domain (bracketed_host_ok ev) final2 = Inr True \<longrightarrow>
        step_D ev name site2 w = (Inr site2, w3))
   \<and> (truthy site \<longrightarrow> find_career_page ev site w = (Inr cp, w4) \<longrightarrow> truthy cp \<longrightarrow>
        is_linkedin_domain (bracketed_host_ok ev) cp = Inr True \<longrightarrow>
        step_F ev site w = (Inr None, w4))
   \<and> (truthy cp \<longrightarrow> extract_one_job_from_career ev cp w = (Inr jo, w5) \<longrightarrow> truthy jo \<longrightarrow>
        is_linkedin_domain (bracketed_host_ok ev) jo = Inr True \<longrightarrow>
        step_G ev cp w = (Inr None, w5))"
  using is_linkedin_domain_iff [of bh url] community_host [of bh]
    step_C_discards [of site ev w final w1]
    step_D_discards [of site2 name ev w found w2 final2 w3]
    step_F_discards [of site ev w cp w4]
    step_G_discards [of cp ev w jo w5]
  by (simp add: is_linkedin_domain_def truthy_def)

lemma community_resolve:
  "resolve_final_url community_web (Some ''https://acme.example/about'') world0
     = (Some ''https://linkedin.community/'',
        world0\<lparr>requests_made := [Head ''https://acme.example/about'']\<rparr>)"
  by (simp add: resolve_final_url_def perform_def community_web_def tier_url_def resp_ok_def
      world0_def)

theorem is_linkedin_domain_substring_test_witness:
  "truthy (Some ''https://acme.example/about'')
   \<and> is_linkedin_domain (bracketed_host_ok community_env) (Some ''https://linkedin.community/'')
        = Inr True
   \<and> step_C community_env (Some ''https://acme.example/about'') world0
        = (Inr None, world0\<lparr>requests_made := [Head ''https://acme.example/about'']\<rparr>)"
proof -
  have t: "truthy (Some ''https://acme.example/about'')" by (simp add: truthy_def)
  have l: "is_linkedin_domain (bracketed_host_ok community_env)
             (Some ''https://linkedin.community/'') = Inr True"
    by code_simp
  have r: "resolve_final_url (net community_env) (Some ''https://acme.example/about'') world0
             = (Some ''https://linkedin.community/'',
                world0\<lparr>requests_made := [Head ''https://acme.example/about'']\<rparr>)"
    using community_resolve by (simp add: community_env_def)
  from is_linkedin_domain_substring_test [of _ _ "Some ''https://acme.example/about''"
      community_env world0 "Some ''https://linkedin.community/''"
      "world0\<lparr>requests_made := [Head ''https://acme.example/about'']\<rparr>"] t l r
  show ?thesis by blast
qed

subsection \<open>C5: no Playwright, no postings, no rows\<close>

lemma keeps_sink_scroll_loop: "keeps_sink (scroll_loop ev url n prev job_urls)"
proof (rule keeps_sinkI)
  fix w
  show "sink (snd (scroll_loop ev url n prev job_urls w)) = sink w"
  proof (induction n arbitrary: prev job_urls w)
    case 0
    then show ?case by simp
  next
    case (Suc n)
    obtain r w1 where p: "perform (net ev) (Scroll url) w = (r, w1)"
      by (cases "perform (net ev) (Scroll url) w")
    with keeps_sink_perform have s1: "sink w1 = sink w" by (rule keeps_sinkD)
    show ?case
    proof (cases r)
      case (Resp status final content)
      with p s1 Suc.IH [of _ _ w1] show ?thesis
        by (auto split: sum.splits)
    qed (use p s1 in auto)
  qed
qed

lemma keeps_sink_scrape: "keeps_sink (scrape_jobs_from_search_page ev url m)"
proof (rule keeps_sinkI)
  fix w
  obtain r w1 where p: "perform (net ev) (Goto url) w = (r, w1)"
    by (cases "perform (net ev) (Goto url) w")
  with keeps_sink_perform have s1: "sink w1 = sink w" by (rule keeps_sinkD)
  from keeps_sink_scroll_loop have "sink (snd (scroll_loop ev url m None [] w1)) = sink w1"
    by (simp add: keeps_sink_def)
  with p s1 show "sink (snd (scrape_jobs_from_search_page ev url m w)) = sink w"
    by (cases r) (auto simp: scrape_jobs_from_search_page_def)
qed

text \<open>
  C5. Without Playwright the listing expansion returns the empty list and requests
  nothing. A run on a listing page (an input without \<open>/jobs/view/\<close>) whose expansion
  yields no posting returns normally, and the CSV file is as it was.
\<close>

theorem no_identifiers_no_rows:
  "(\<not> PLAYWRIGHT_AVAILABLE ev \<longrightarrow> scrape_jobs_from_search_page ev url m w = (Inr [], w))
   \<and> (\<not> py_in ''/jobs/view/'' (py_strip input) \<longrightarrow>
        \<not> (up \<and> PLAYWRIGHT_AVAILABLE ev) \<longrightarrow> run_main ev input up w = (Inr (), w))
   \<and> (\<not> py_in ''/jobs/view/'' (py_strip input) \<longrightarrow> up \<longrightarrow> PLAYWRIGHT_AVAILABLE ev \<longrightarrow>
        scrape_jobs_from_search_page ev (py_strip input) max_scrolls_default w = (Inr [], w1) \<longrightarrow>
        run_main ev input up w = (Inr (), w1) \<and> sink w1 = sink w)"
proof (intro conjI impI)
  assume "\<not> PLAYWRIGHT_AVAILABLE ev"
  then show "scrape_jobs_from_search_page ev url m w = (Inr [], w)"
    by (simp add: scrape_jobs_from_search_page_def)
next
  assume "\<not> py_in ''/jobs/view/'' (py_strip input)" and "\<not> (up \<and> PLAYWRIGHT_AVAILABLE ev)"
  then show "run_main ev input up w = (Inr (), w)"
    by (auto simp: run_main_def Let_def io_bind_def io_val_def)
next
  assume a: "\<not> py_in ''/jobs/view/'' (py_strip input)" "up" "PLAYWRIGHT_AVAILABLE ev"
    "scrape_jobs_from_search_page ev (py_strip input) max_scrolls_default w = (Inr [], w1)"
  then show "run_main ev input up w = (Inr (), w1)"
    by (simp add: run_main_def Let_def io_bind_def io_val_def)
  from keeps_sink_scrape a(4) show "sink w1 = sink w" by (rule keeps_sinkD)
qed

theorem no_identifiers_no_rows_witness:
  "\<not> PLAYWRIGHT_AVAILABLE leak_env
   \<and> \<not> py_in ''/jobs/view/'' (py_strip listing_url)
   \<and> scrape_jobs_from_search_page leak_env listing_url max_scrolls_default world0 = (Inr [], world0)
   \<and> run_main leak_env listing_url True world0 = (Inr (), world0)"
proof -
  have a: "\<not> PLAYWRIGHT_AVAILABLE leak_env" by simp
  have b: "\<not> py_in ''/jobs/view/'' (py_strip listing_url)" by code_simp
  from no_identifiers_no_rows [of leak_env listing_url max_scrolls_default world0 listing_url True]
    a b
  show ?thesis by blast
qed

subsection \<open>C7: the career page itself as the job opening\<close>

lemma job_anchor_scan_none:
  assumes "list_all (\<lambda>a. \<not> any_in JOB_KEYWORDS (py_lower (fst a))
                        \<and> \<not> any_in JOB_KEYWORDS (py_lower (snd a))) as"
  shows "job_anchor_scan bh career_url as = Inr None"
  using assms by (induction as) simp_all

text \<open>
  In part2_agent.py the extractor does what C7 says: on a fetched career page without a
  job-keyword anchor, an ATS host gives the career page URL at once (no request beyond the
  fetch of the page), and any other host goes on to the probe of the fixed sub-paths.
\<close>

lemma extract_one_job_without_keyword_anchor:
  assumes "truthy career_url"
    and "safe_get (net ev) (or_empty career_url) w = (Some (status, final, text), w1)"
    and "list_all (\<lambda>a. \<not> any_in JOB_KEYWORDS (py_lower (fst a))
                          \<and> \<not> any_in JOB_KEYWORDS (py_lower (snd a))) (anchors (bs ev text))"
    and "is_ats_url (bracketed_host_ok ev) career_url = Inr ats"
    and "urlparse (bracketed_host_ok ev) [] (or_empty career_url) = Inr parsed"
  shows "extract_one_job_from_career ev career_url w =
           (if ats then (Inr career_url, w1)
            else probe_paths ev (scheme parsed @ ''://'' @ netloc parsed)
                   JOB_KEYWORDS job_paths w1)"
  using assms
  by (simp add: extract_one_job_from_career_def io_bind_def io_ok_def io_val_def
      job_anchor_scan_none)

lemma plain_get:
  "safe_get plain_web ''https://acme.example/careers'' w
     = (Some (200, ''https://acme.example/careers'', ''About us''),
        w\<lparr>requests_made := requests_made w @ [Get ''https://acme.example/careers'']\<rparr>)"
  by (simp add: safe_get_def MAX_RETRIES_def eval_nat_numeral perform_def plain_web_def
      resp_ok_def)

lemma plain_get_fail:
  assumes "u \<noteq> ''https://acme.example/careers''"
  shows "fst (safe_get plain_web u w) = None"
  using assms
  by (simp add: safe_get_def MAX_RETRIES_def eval_nat_numeral perform_def plain_web_def
      resp_ok_def)

lemma plain_probe:
  assumes "list_all (\<lambda>p. case urljoin (\<lambda>h. True) base p of
                           Inl e \<Rightarrow> False
                         | Inr c \<Rightarrow> c \<noteq> ''https://acme.example/careers'') ps"
  shows "fst (probe_paths plain_env base kws ps w) = Inr None"
  using assms
proof (induction ps arbitrary: w)
  case Nil
  then show ?case by simp
next
  case (Cons p ps)
  from Cons.prems obtain c where c: "urljoin (\<lambda>h. True) base p = Inr c"
    and ne: "c \<noteq> ''https://acme.example/careers''"
    by (auto split: sum.splits)
  from plain_get_fail [OF ne, of w] obtain w1 where "safe_get plain_web c w = (None, w1)"
    by (rule fst_pairE)
  moreover from Cons.prems have "fst (probe_paths plain_env base kws ps w1) = Inr None"
    by (intro Cons.IH) simp
  ultimately show ?case using c by (simp add: plain_env_def)
qed

lemma plain_paths:
  "list_all (\<lambda>p. case urljoin (\<lambda>h. True) ''https://acme.example'' p of
                    Inl e \<Rightarrow> False
                  | Inr c \<Rightarrow> c \<noteq> ''https://acme.example/careers'') job_paths"
  by code_simp

lemma plain_not_ats: "is_ats_url (\<lambda>h. True) (Some ''https://acme.example/careers'') = Inr False"
  by code_simp

lemma plain_parse:
  "urlparse (\<lambda>h. True) [] ''https://acme.example/careers''
     = Inr \<lparr>scheme = ''https'', netloc = ''acme.example'', path = ''/careers'', params = [],
            query = [], fragment = []\<rparr>"
  by code_simp

lemma plain_current:
  "fst (extract_one_job_from_career plain_env (Some plain_career) world0) = Inr None"
proof -
  have "extract_one_job_from_career plain_env (Some plain_career) world0
          = probe_paths plain_env ''https://acme.example'' JOB_KEYWORDS job_paths
              (world0\<lparr>requests_made := requests_made world0 @ [Get ''https://acme.example/careers'']\<rparr>)"
    using extract_one_job_without_keyword_anchor [of "Some plain_career" plain_env world0
        200 "''https://acme.example/careers''" "''About us''" _ False
        "\<lparr>scheme = ''https'', netloc = ''acme.example'', path = ''/careers'', params = [],
            query = [], fragment = []\<rparr>"]
    by (simp add: plain_career_def plain_env_def truthy_def or_empty_def plain_get no_soup_def
        plain_not_ats plain_parse)
  with plain_probe [OF plain_paths] show ?thesis by simp
qed

text \<open>
  C7 (the code departs from the claim). The earlier \<open>extract_one_job_from_career\<close> of
  part2_agent_prev.py ends in \<open>return career_url  # fallback to career page itself if ATS\<close>
  without a test of the host: on a career page that is on no ATS host and has no anchor,
  it returns the career page URL itself, where the extractor of part2_agent.py goes on to
  the sub-path probe and returns absence.
\<close>

theorem prev_extract_returns_career_page_off_ats:
  "is_ats_url (bracketed_host_ok plain_env) (Some plain_career) = Inr False
   \<and> anchors (bs plain_env ''About us'') = []
   \<and> fst (prev_extract_one_job_from_career plain_env plain_career world0) = Inr (Some plain_career)
   \<and> fst (extract_one_job_from_career plain_env (Some plain_career) world0) = Inr None"
proof -
  have "fst (prev_extract_one_job_from_career plain_env plain_career world0)
          = Inr (Some plain_career)"
    by (simp add: prev_extract_one_job_from_career_def io_bind_def io_ok_def io_val_def
        plain_env_def plain_career_def plain_get no_soup_def)
  with plain_current plain_not_ats show ?thesis
    by (simp add: plain_env_def plain_career_def no_soup_def)
qed

subsection \<open>C4: the scroll loop\<close>

lemma collect_job_urls_grows:
  "collect_job_urls bh url as urls = Inr urls' \<Longrightarrow>
     set urls \<subseteq> set urls' \<and> length urls \<le> length urls' \<and> (distinct urls \<longrightarrow> distinct urls')"
proof (induction as arbitrary: urls)
  case Nil
  then show ?case by simp
next
  case (Cons a as)
  show ?case
  proof (cases "py_in ''/jobs/view/'' (fst a)")
    case False
    with Cons show ?thesis by simp
  next
    case True
    show ?thesis
    proof (cases "normalize_url bh url (Some (before_first CHR ''?'' (fst a)))")
      case (Inl e)
      with True Cons.prems show ?thesis by (simp add: bind_err_def)
    next
      case (Inr full)
      with True Cons.prems have "collect_job_urls bh url as (List.insert full urls) = Inr urls'"
        by (simp add: bind_err_def)
      from Cons.IH [OF this] show ?thesis
        by (auto simp: List.insert_def split: if_splits)
    qed
  qed
qed

text \<open>A pass that leaves the number of identifiers unchanged leaves the list unchanged.\<close>

lemma collect_job_urls_same_length:
  "collect_job_urls bh url as urls = Inr urls' \<Longrightarrow> length urls' = length urls \<Longrightarrow> urls' = urls"
proof (induction as arbitrary: urls)
  case Nil
  then show ?case by simp
next
  case (Cons a as)
  show ?case
  proof (cases "py_in ''/jobs/view/'' (fst a)")
    case False
    with Cons show ?thesis by simp
  next
    case True
    show ?thesis
    proof (cases "normalize_url bh url (Some (before_first CHR ''?'' (fst a)))")
      case (Inl e)
      with True Cons.prems show ?thesis by (simp add: bind_err_def)
    next
      case (Inr full)
      with True Cons.prems have c: "collect_job_urls bh url as (List.insert full urls) = Inr urls'"
        by (simp add: bind_err_def)
      from collect_job_urls_grows [OF c] have "length (List.insert full urls) \<le> length urls'"
        by simp
      with Cons.prems(2) have m: "full \<in> set urls"
        by (auto simp: List.insert_def split: if_splits)
      then have "List.insert full urls = urls" by simp
      with c Cons.IH [of urls] Cons.prems(2) show ?thesis by simp
    qed
  qed
qed

text \<open>Every identifier a pass computes is in its result, so a second pass adds nothing.\<close>

lemma collect_job_urls_absorbs:
  assumes "collect_job_urls bh url as urls = Inr urls'" and "set urls' \<subseteq> set done"
  shows "collect_job_urls bh url as done = Inr done"
  using assms
proof (induction as arbitrary: urls)
  case Nil
  then show ?case by simp
next
  case (Cons a as)
  show ?case
  proof (cases "py_in ''/jobs/view/'' (fst a)")
    case False
    with Cons show ?thesis by simp
  next
    case True
    show ?thesis
    proof (cases "normalize_url bh url (Some (before_first CHR ''?'' (fst a)))")
      case (Inl e)
      with True Cons.prems show ?thesis by (simp add: bind_err_def)
    next
      case (Inr full)
      with True Cons.prems have c: "collect_job_urls bh url as (List.insert full urls) = Inr urls'"
        by (simp add: bind_err_def)
      from collect_job_urls_grows [OF c] Cons.prems(2) have "full \<in> set done" by auto
      then have "List.insert full done = done" by simp
      with Cons.IH [OF c Cons.prems(2)] True Inr show ?thesis by (simp add: bind_err_def)
    qed
  qed
qed

lemma collect_job_urls_idem:
  "collect_job_urls bh url as urls = Inr urls' \<Longrightarrow> collect_job_urls bh url as urls' = Inr urls'"
  using collect_job_urls_absorbs [of bh url as urls urls' urls'] by simp

lemma replicate_snoc_front: "[x] @ replicate k x = replicate (Suc k) x"
  by simp

lemma scroll_loop_requests:
  "\<exists>k\<le>n. requests_made (snd (scroll_loop ev url n prev urls w))
            = requests_made w @ replicate k (Scroll url)"
proof (induction n arbitrary: prev urls w)
  case 0
  then show ?case by simp
next
  case (Suc n)
  let ?w1 = "w\<lparr>requests_made := requests_made w @ [Scroll url]\<rparr>"
  have p: "perform (net ev) (Scroll url) w = (net ev (requests_made w) (Scroll url), ?w1)"
    by (simp add: perform_def)
  have one: "\<exists>k\<le>Suc n. requests_made ?w1 = requests_made w @ replicate k (Scroll url)"
    by (rule exI [of _ 1]) simp
  show ?case
  proof (cases "net ev (requests_made w) (Scroll url)")
    case Raised
    with p one show ?thesis by simp
  next
    case (Height x)
    with p one show ?thesis by simp
  next
    case (Resp status final content)
    show ?thesis
    proof (cases "collect_job_urls (bracketed_host_ok ev) url (anchors (bs ev content)) urls")
      case (Inl e)
      with p one Resp show ?thesis by simp
    next
      case (Inr urls')
      show ?thesis
      proof (cases "prev = Some (length urls')")
        case True
        with p one Resp Inr show ?thesis by simp
      next
        case False
        from Suc.IH [of "Some (length urls')" urls' ?w1] obtain k where
          k: "k \<le> n" "requests_made (snd (scroll_loop ev url n (Some (length urls')) urls' ?w1))
                = requests_made ?w1 @ replicate k (Scroll url)"
          by blast
        then have "requests_made (snd (scroll_loop ev url n (Some (length urls')) urls' ?w1))
                = requests_made w @ replicate (Suc k) (Scroll url)"
          by simp
        with k(1) p Resp Inr False show ?thesis
          by (intro exI [of _ "Suc k"]) simp
      qed
    qed
  qed
qed

lemma scroll_loop_trace:
  assumes "scroll_loop ev url n prev urls w = (Inr res, w')"
    and "prev = None \<or> prev = Some (length urls)"
  shows "\<exists>k\<le>n. requests_made w' = requests_made w @ replicate k (Scroll url)
           \<and> set urls \<subseteq> set res
           \<and> (distinct urls \<longrightarrow> distinct res)
           \<and> length urls + (k - (if prev = None then 2 else 1)) \<le> length res
           \<and> (k < n \<longrightarrow> 1 \<le> k \<and> (prev = None \<longrightarrow> 2 \<le> k)
                \<and> (\<exists>status final content.
                      net ev (requests_made w @ replicate (k - 1) (Scroll url)) (Scroll url)
                        = Resp status final content
                      \<and> collect_job_urls (bracketed_host_ok ev) url (anchors (bs ev content)) res
                          = Inr res))"
  using assms
proof (induction n arbitrary: prev urls w)
  case 0
  then show ?case by simp
next
  case (Suc n)
  let ?w1 = "w\<lparr>requests_made := requests_made w @ [Scroll url]\<rparr>"
  have p: "perform (net ev) (Scroll url) w = (net ev (requests_made w) (Scroll url), ?w1)"
    by (simp add: perform_def)
  from Suc.prems(1) p obtain status final content where
    resp: "net ev (requests_made w) (Scroll url) = Resp status final content"
    by (cases "net ev (requests_made w) (Scroll url)") auto
  from Suc.prems(1) p resp obtain urls' where
    col: "collect_job_urls (bracketed_host_ok ev) url (anchors (bs ev content)) urls = Inr urls'"
    by (cases "collect_job_urls (bracketed_host_ok ev) url (anchors (bs ev content)) urls") auto
  note g = collect_job_urls_grows [OF col]
  show ?case
  proof (cases "prev = Some (length urls')")
    case True
    with Suc.prems(1) p resp col have r: "res = urls'" "w' = ?w1" by simp_all
    from True Suc.prems(2) have pl: "prev = Some (length urls)" "length urls' = length urls"
      by auto
    from collect_job_urls_same_length [OF col pl(2)] have same: "urls' = urls" .
    with col have "collect_job_urls (bracketed_host_ok ev) url (anchors (bs ev content)) res
                     = Inr res"
      using r by simp
    with r resp pl same show ?thesis
      by (intro exI [of _ 1]) auto
  next
    case False
    with Suc.prems(1) p resp col have
      rec: "scroll_loop ev url n (Some (length urls')) urls' ?w1 = (Inr res, w')"
      by simp
    from Suc.IH [OF rec] obtain k where k: "k \<le> n"
      and lg: "requests_made w' = requests_made ?w1 @ replicate k (Scroll url)"
      and sub: "set urls' \<subseteq> set res"
      and dis: "distinct urls' \<longrightarrow> distinct res"
      and len: "length urls' + (k - 1) \<le> length res"
      and stop: "k < n \<longrightarrow> 1 \<le> k
                 \<and> (\<exists>status final content.
                      net ev (requests_made ?w1 @ replicate (k - 1) (Scroll url)) (Scroll url)
                        = Resp status final content
                      \<and> collect_job_urls (bracketed_host_ok ev) url (anchors (bs ev content)) res
                          = Inr res)"
      by auto
    have lg': "requests_made w' = requests_made w @ replicate (Suc k) (Scroll url)"
      using lg by simp
    have grow: "length urls + (Suc k - (if prev = None then 2 else 1)) \<le> length res"
    proof (cases "prev = None")
      case True
      with g len show ?thesis by simp
    next
      case pn: False
      with Suc.prems(2) have "prev = Some (length urls)" by simp
      with False g have "length urls < length urls'" by auto
      with pn len show ?thesis by simp
    qed
    have early: "Suc k < Suc n \<longrightarrow> 1 \<le> Suc k \<and> (prev = None \<longrightarrow> 2 \<le> Suc k)
                 \<and> (\<exists>status final content.
                      net ev (requests_made w @ replicate (Suc k - 1) (Scroll url)) (Scroll url)
                        = Resp status final content
                      \<and> collect_job_urls (bracketed_host_ok ev) url (anchors (bs ev content)) res
                          = Inr res)"
    proof
      assume "Suc k < Suc n"
      then have kn: "k < n" by simp
      with stop have k1: "1 \<le> k" and
        ex: "\<exists>status final content.
               net ev (requests_made ?w1 @ replicate (k - 1) (Scroll url)) (Scroll url)
                 = Resp status final content
               \<and> collect_job_urls (bracketed_host_ok ev) url (anchors (bs ev content)) res
                   = Inr res"
        by auto
      from k1 have "requests_made ?w1 @ replicate (k - 1) (Scroll url)
                      = requests_made w @ replicate (Suc k - 1) (Scroll url)"
        by (cases k) (simp_all add: replicate_append_same)
      with ex k1 show "1 \<le> Suc k \<and> (prev = None \<longrightarrow> 2 \<le> Suc k)
                 \<and> (\<exists>status final content.
                      net ev (requests_made w @ replicate (Suc k - 1) (Scroll url)) (Scroll url)
                        = Resp status final content
                      \<and> collect_job_urls (bracketed_host_ok ev) url (anchors (bs ev content)) res
                          = Inr res)"
        by auto
    qed
    from k lg' sub dis g grow early show ?thesis
      by (intro exI [of _ "Suc k"]) auto
  qed
qed

lemma scrape_requests:
  "\<exists>k\<le>m. requests_made (snd (scrape_jobs_from_search_page ev url m w))
            = requests_made w
              @ (if PLAYWRIGHT_AVAILABLE ev then Goto url # replicate k (Scroll url) else [])"
proof (cases "PLAYWRIGHT_AVAILABLE ev")
  case False
  then show ?thesis
    by (intro exI [of _ 0]) (simp add: scrape_jobs_from_search_page_def)
next
  case True
  let ?w1 = "w\<lparr>requests_made := requests_made w @ [Goto url]\<rparr>"
  have p: "perform (net ev) (Goto url) w = (net ev (requests_made w) (Goto url), ?w1)"
    by (simp add: perform_def)
  show ?thesis
  proof (cases "net ev (requests_made w) (Goto url)")
    case (Resp status final content)
    from scroll_loop_requests [of m ev url None "[]" ?w1] obtain k where
      "k \<le> m" "requests_made (snd (scroll_loop ev url m None [] ?w1))
                 = requests_made ?w1 @ replicate k (Scroll url)"
      by blast
    with True p Resp show ?thesis
      by (intro exI [of _ k]) (simp add: scrape_jobs_from_search_page_def)
  next
    case Raised
    with True p show ?thesis
      by (intro exI [of _ 0]) (simp add: scrape_jobs_from_search_page_def)
  next
    case (Height x)
    with True p show ?thesis
      by (intro exI [of _ 0]) (simp add: scrape_jobs_from_search_page_def)
  qed
qed

lemma scrape_trace:
  assumes "PLAYWRIGHT_AVAILABLE ev"
    and "scrape_jobs_from_search_page ev url m w = (Inr res, w')"
  shows "\<exists>k\<le>m. requests_made w' = requests_made w @ Goto url # replicate k (Scroll url)
           \<and> distinct res \<and> k \<le> length res + 2
           \<and> (k < m \<longrightarrow> 2 \<le> k
                \<and> (\<exists>status final content.
                      net ev (requests_made w @ Goto url # replicate (k - 1) (Scroll url))
                        (Scroll url) = Resp status final content
                      \<and> collect_job_urls (bracketed_host_ok ev) url (anchors (bs ev content)) res
                          = Inr res))"
proof -
  let ?w1 = "w\<lparr>requests_made := requests_made w @ [Goto url]\<rparr>"
  have p: "perform (net ev) (Goto url) w = (net ev (requests_made w) (Goto url), ?w1)"
    by (simp add: perform_def)
  from assms p have loop: "scroll_loop ev url m None [] ?w1 = (Inr res, w')"
    by (cases "net ev (requests_made w) (Goto url)")
      (simp_all add: scrape_jobs_from_search_page_def)
  from scroll_loop_trace [OF loop] obtain k where "k \<le> m"
    "requests_made w' = requests_made ?w1 @ replicate k (Scroll url)"
    "distinct res" "k - 2 \<le> length res"
    "k < m \<longrightarrow> 2 \<le> k
       \<and> (\<exists>status final content.
             net ev (requests_made ?w1 @ replicate (k - 1) (Scroll url)) (Scroll url)
               = Resp status final content
             \<and> collect_job_urls (bracketed_host_ok ev) url (anchors (bs ev content)) res
                 = Inr res)"
    by auto
  then show ?thesis
    by (intro exI [of _ k]) auto
qed

lemma slow_collect:
  "collect_job_urls (\<lambda>h. True) ''https://www.linkedin.com/jobs/search/''
     [(''/jobs/view/7?refId=x'', ''Engineer'')] []
     = Inr [Some ''https://www.linkedin.com/jobs/view/7'']"
  "collect_job_urls (\<lambda>h. True) ''https://www.linkedin.com/jobs/search/''
     [(''/jobs/view/7?refId=x'', ''Engineer'')] [Some ''https://www.linkedin.com/jobs/view/7'']
     = Inr [Some ''https://www.linkedin.com/jobs/view/7'']"
  by code_simp+

lemma slow_run:
  "scrape_jobs_from_search_page slow_env listing_url max_scrolls_default world0
     = (Inr [Some ''https://www.linkedin.com/jobs/view/7''],
        world0\<lparr>requests_made := [Goto listing_url, Scroll listing_url, Scroll listing_url,
                                  Scroll listing_url]\<rparr>)"
  by (simp del: collect_job_urls.simps
      add: scrape_jobs_from_search_page_def slow_env_def max_scrolls_default_def
      eval_nat_numeral perform_def slow_web_def slow_bs_def world0_def listing_url_def
      no_soup_def slow_collect collect_job_urls.simps(1))

subsection \<open>C8: the company name from the page title\<close>

lemma py_split_nonempty: "py_split sep s \<noteq> []"
  by (induction sep s rule: py_split.induct) (auto split: list.splits)

lemma py_split_without: "\<not> py_in sep s \<Longrightarrow> py_split sep s = [s]"
  by (induction s) auto

lemma py_split_with: "sep \<noteq> [] \<Longrightarrow> py_in sep s \<Longrightarrow> 2 \<le> length (py_split sep s)"
proof (induction sep s rule: py_split.induct)
  case (1 sep)
  then show ?case by simp
next
  case (2 sep x xs)
  show ?case
  proof (cases "startswith (x # xs) sep")
    case True
    with "2.prems" py_split_nonempty [of sep "drop (length sep - 1) xs"] show ?thesis
      by (cases "py_split sep (drop (length sep - 1) xs)") auto
  next
    case False
    with "2.prems" have "py_in sep xs" by simp
    with "2.IH"(2) "2.prems" False have "2 \<le> length (py_split sep xs)" by simp
    with False show ?thesis by (auto split: list.splits)
  qed
qed

lemma last_py_split_cons:
  assumes "\<not> (sep \<noteq> [] \<and> startswith (x # xs) sep)" and "2 \<le> length (py_split sep xs)"
  shows "last (py_split sep (x # xs)) = last (py_split sep xs)"
  using assms by (cases "py_split sep xs") (auto split: list.splits)

lemma startswith_append:
  assumes "startswith (A @ x # B) p" and "x \<notin> set p"
  shows "startswith A p"
proof (cases "length p \<le> length A")
  case True
  with assms(1) show ?thesis by (simp add: startswith_def)
next
  case False
  then have "take (length p) (A @ x # B) = A @ x # take (length p - Suc (length A)) B"
    by (simp add: take_Cons')
  with assms(1) have "p = A @ x # take (length p - Suc (length A)) B"
    by (simp add: startswith_def)
  then have "x \<in> set p" by (metis in_set_conv_decomp)
  with assms(2) show ?thesis by simp
qed

lemma py_in_append_sep:
  assumes "x \<notin> set p" and "\<not> py_in p A" and "\<not> py_in p B"
  shows "\<not> py_in p (A @ x # B)"
  using assms
proof (induction A)
  case Nil
  then have "\<not> startswith (x # B) p"
    by (cases p) (auto simp: startswith_def)
  with Nil show ?case by simp
next
  case (Cons a A)
  from Cons.prems have "\<not> startswith (a # A) p" "\<not> py_in p A" by simp_all
  with startswith_append [of "a # A" x B p] Cons show ?case by auto
qed

text \<open>
  The last piece of the split is what follows the separator, when no further separator
  follows and no occurrence of the separator starts in the text before it and runs into
  it.
\<close>

lemma last_py_split_sync:
  assumes "sep \<noteq> []" and "\<not> py_in sep R"
    and "\<And>A B. T = A @ B \<Longrightarrow> B \<noteq> [] \<Longrightarrow> length B < length sep
           \<Longrightarrow> \<not> startswith (B @ sep @ R) sep"
  shows "last (py_split sep (T @ sep @ R)) = R"
  using assms(3)
proof (induction T rule: length_induct)
  case (1 T)
  show ?case
  proof (cases T)
    case Nil
    from assms(1) obtain c cs where sep: "sep = c # cs" by (cases sep) auto
    have "py_split sep (sep @ R) = [] # py_split sep R"
      by (simp add: sep startswith_def)
    with py_split_without [OF assms(2)] Nil show ?thesis by simp
  next
    case (Cons x T')
    have in': "py_in sep (T' @ sep @ R)" by (auto simp: py_in_iff)
    have sync': "\<And>A B. T' = A @ B \<Longrightarrow> B \<noteq> [] \<Longrightarrow> length B < length sep
           \<Longrightarrow> \<not> startswith (B @ sep @ R) sep"
    proof -
      fix A B assume "T' = A @ B" "B \<noteq> []" "length B < length sep"
      with "1.prems" [of "x # A" B] Cons show "\<not> startswith (B @ sep @ R) sep" by simp
    qed
    show ?thesis
    proof (cases "startswith (T @ sep @ R) sep")
      case False
      from "1.IH" Cons sync' have "last (py_split sep (T' @ sep @ R)) = R" by simp
      moreover from py_split_with [OF assms(1) in']
      have "2 \<le> length (py_split sep (T' @ sep @ R))" .
      ultimately show ?thesis
        using last_py_split_cons [of sep x "T' @ sep @ R"] False Cons by simp
    next
      case True
      have long: "length sep \<le> length T"
      proof (rule ccontr)
        assume "\<not> length sep \<le> length T"
        with "1.prems" [of "[]" T] Cons True show False by simp
      qed
      with True have tk: "take (length sep) T = sep" by (simp add: startswith_def)
      define T2 where "T2 = drop (length sep) T"
      from tk have T: "T = sep @ T2" unfolding T2_def by (metis append_take_drop_id)
      from assms(1) obtain c cs where sep: "sep = c # cs" by (cases sep) auto
      with T Cons have T': "T' = cs @ T2" by simp
      then have dr: "drop (length sep - 1) (T' @ sep @ R) = T2 @ sep @ R"
        by (simp add: sep)
      have sync2: "\<And>A B. T2 = A @ B \<Longrightarrow> B \<noteq> [] \<Longrightarrow> length B < length sep
           \<Longrightarrow> \<not> startswith (B @ sep @ R) sep"
      proof -
        fix A B assume "T2 = A @ B" "B \<noteq> []" "length B < length sep"
        with "1.prems" [of "sep @ A" B] T show "\<not> startswith (B @ sep @ R) sep" by simp
      qed
      from T assms(1) have "length T2 < length T" by simp
      with "1.IH" sync2 have "last (py_split sep (T2 @ sep @ R)) = R" by blast
      then have l: "last ([] # py_split sep (T2 @ sep @ R)) = R"
        using py_split_nonempty [of sep "T2 @ sep @ R"] by simp
      from True Cons assms(1) have
        "py_split sep (x # (T' @ sep @ R))
           = [] # py_split sep (drop (length sep - 1) (T' @ sep @ R))"
        by (simp del: drop_append)
      then have "py_split sep (x # (T' @ sep @ R)) = [] # py_split sep (T2 @ sep @ R)"
        by (simp only: dr)
      with l Cons show ?thesis by simp
    qed
  qed
qed

lemma at_sync:
  assumes "\<not> endswith T '' at''" and "T = A @ B" and "B \<noteq> []" and "length B < length '' at ''"
  shows "\<not> startswith (B @ '' at '' @ R) '' at ''"
proof
  assume s: "startswith (B @ '' at '' @ R) '' at ''"
  from assms(3,4) consider b1 where "B = [b1]" | b1 b2 where "B = [b1, b2]"
    | b1 b2 b3 where "B = [b1, b2, b3]"
    by (cases B rule: list.exhaust; simp)
       (metis (no_types, opaque_lifting) length_0_conv length_Suc_conv less_Suc_eq
          less_nat_zero_code list.size(3) numeral_3_eq_3 Suc_less_eq)
  then show False
  proof cases
    case 1
    with s show ?thesis by (simp add: startswith_def)
  next
    case 2
    with s show ?thesis by (simp add: startswith_def)
  next
    case 3
    with s have "B = '' at''" by (simp add: startswith_def)
    with assms(2) have "endswith T '' at''" by (simp add: endswith_def)
    with assms(1) show ?thesis by simp
  qed
qed

lemma title_company_at:
  assumes "\<not> endswith T '' at''" and "\<not> py_in '' at '' C" and "CHR ''|'' \<notin> set C"
    and "\<not> py_in '' at '' S"
  shows "title_company (T @ '' at '' @ C @ ''|'' @ S) = py_strip C"
proof -
  have r: "\<not> py_in '' at '' (C @ ''|'' @ S)"
    using py_in_append_sep [of "CHR ''|''" "'' at ''" C S] assms(2,4) by simp
  have "last (py_split '' at '' (T @ '' at '' @ (C @ ''|'' @ S))) = C @ ''|'' @ S"
    using at_sync [OF assms(1)] r by (intro last_py_split_sync) auto
  moreover have "before_first CHR ''|'' (C @ ''|'' @ S) = C"
    using assms(3) by (simp add: before_first_def takeWhile_append)
  ultimately show ?thesis by (simp add: title_company_def)
qed

lemma extract_company_name_without_og:
  assumes "og_property sp = None" and "og_name sp = None"
  shows "extract_company_name sp =
           (case title_string sp of
              None \<Rightarrow> None
            | Some ts \<Rightarrow> if py_in '' at '' (or_empty ts) then Some (title_company (or_empty ts))
                         else None)"
  using assms by (simp add: extract_company_name_def truthy_def Let_def split: option.splits)

text \<open>
  C8, as amended. Without an \<open>og:site_name\<close> tag, for a title of the form
  \<open><title> at <Company>|<source>\<close> where neither the company segment nor the source
  contains \<open>" at "\<close>, the company segment contains no \<open>|\<close>, and the title part does
  not end in \<open>" at"\<close>, the extracted company name is the company segment with the white
  space around it stripped. Without the tag, a page with no title, a title without a
  single string, or a title without \<open>" at "\<close> yields \<open>None\<close>. Both resolvers take
  their company name from this extraction, and neither can leave by an exception (their
  results have no error case).
\<close>

theorem company_name_from_title:
  "(og_property sp = None \<longrightarrow> og_name sp = None \<longrightarrow>
      title_string sp = Some (Some (T @ '' at '' @ C @ ''|'' @ S)) \<longrightarrow>
      \<not> endswith T '' at'' \<longrightarrow> \<not> py_in '' at '' C \<longrightarrow> CHR ''|'' \<notin> set C \<longrightarrow>
      \<not> py_in '' at '' S \<longrightarrow>
      extract_company_name sp = Some (py_strip C))
   \<and> (og_property sp = None \<longrightarrow> og_name sp = None \<longrightarrow>
        (title_string sp = None \<or> title_string sp = Some None
         \<or> (\<exists>t. title_string sp = Some (Some t) \<and> \<not> py_in '' at '' t)) \<longrightarrow>
        extract_company_name sp = None)
   \<and> (PLAYWRIGHT_AVAILABLE ev \<longrightarrow> perform (net ev) (Render u) w = (Resp status final content, w1) \<longrightarrow>
        fst (fst (render_linkedin_job_with_playwright ev (Some u) w))
          = extract_company_name (bs ev content))
   \<and> (safe_get_opt (net ev) job w = (Some (status, final, content), w1) \<longrightarrow>
        fst (fst (extract_linkedin_job_requests ev job w)) = extract_company_name (bs ev content))"
proof (intro conjI impI)
  assume og: "og_property sp = None" "og_name sp = None"
    and t: "title_string sp = Some (Some (T @ '' at '' @ C @ ''|'' @ S))"
    and c: "\<not> endswith T '' at''" "\<not> py_in '' at '' C" "CHR ''|'' \<notin> set C" "\<not> py_in '' at '' S"
  have "py_in '' at '' (T @ '' at '' @ C @ ''|'' @ S)"
    unfolding py_in_iff by blast
  with extract_company_name_without_og [OF og] t title_company_at [OF c]
  show "extract_company_name sp = Some (py_strip C)"
    by (simp add: or_empty_def)
next
  assume og: "og_property sp = None" "og_name sp = None"
    and "title_string sp = None \<or> title_string sp = Some None
         \<or> (\<exists>t. title_string sp = Some (Some t) \<and> \<not> py_in '' at '' t)"
  with extract_company_name_without_og [OF og]
  show "extract_company_name sp = None"
    by (auto simp: or_empty_def)
next
  assume "PLAYWRIGHT_AVAILABLE ev" "perform (net ev) (Render u) w = (Resp status final content, w1)"
  then show "fst (fst (render_linkedin_job_with_playwright ev (Some u) w))
               = extract_company_name (bs ev content)"
    by (simp add: render_linkedin_job_with_playwright_def)
next
  assume "safe_get_opt (net ev) job w = (Some (status, final, content), w1)"
  then show "fst (fst (extract_linkedin_job_requests ev job w))
               = extract_company_name (bs ev content)"
    by (simp add: extract_linkedin_job_requests_def)
qed

theorem company_name_from_title_witness:
  "\<not> endswith ''Senior Engineer'' '' at'' \<and> \<not> py_in '' at '' ''Acme Corp ''
   \<and> CHR ''|'' \<notin> set ''Acme Corp '' \<and> \<not> py_in '' at '' '' LinkedIn''
   \<and> extract_company_name
        (no_soup\<lparr>title_string := Some (Some ''Senior Engineer at Acme Corp | LinkedIn'')\<rparr>)
       = Some ''Acme Corp''"
proof -
  have a: "\<not> endswith ''Senior Engineer'' '' at''" by code_simp
  have b: "\<not> py_in '' at '' ''Acme Corp ''" by code_simp
  have c: "CHR ''|'' \<notin> set ''Acme Corp ''" by simp
  have d: "\<not> py_in '' at '' '' LinkedIn''" by code_simp
  have e: "py_strip ''Acme Corp '' = ''Acme Corp''" by code_simp
  from company_name_from_title
    [of "no_soup\<lparr>title_string := Some (Some ''Senior Engineer at Acme Corp | LinkedIn'')\<rparr>"
      "''Senior Engineer''" "''Acme Corp ''" "'' LinkedIn''"] a b c d e
  show ?thesis by (simp add: no_soup_def)
qed

text \<open>
  The claim as stated fails: the title below has the form the claim describes, its company
  segment is \<open>Acme\<close>, and the extracted name is \<open>LinkedIn\<close>, since the split takes what
  follows the last \<open>" at "\<close> of the whole title.
\<close>

theorem company_name_from_later_at:
  "''Engineer at Acme | Jobs at LinkedIn''
     = ''Engineer'' @ '' at '' @ ''Acme '' @ ''|'' @ '' Jobs at LinkedIn''
   \<and> \<not> py_in '' at '' ''Acme '' \<and> CHR ''|'' \<notin> set ''Acme '' \<and> py_strip ''Acme '' = ''Acme''
   \<and> og_property (no_soup\<lparr>title_string := Some (Some ''Engineer at Acme | Jobs at LinkedIn'')\<rparr>)
       = None
   \<and> og_name (no_soup\<lparr>title_string := Some (Some ''Engineer at Acme | Jobs at LinkedIn'')\<rparr>)
       = None
   \<and> extract_company_name
        (no_soup\<lparr>title_string := Some (Some ''Engineer at Acme | Jobs at LinkedIn'')\<rparr>)
       = Some ''LinkedIn''"
proof -
  have "\<not> py_in '' at '' ''Acme ''" by code_simp
  moreover have "py_strip ''Acme '' = ''Acme''" by code_simp
  moreover have "extract_company_name
        (no_soup\<lparr>title_string := Some (Some ''Engineer at Acme | Jobs at LinkedIn'')\<rparr>)
       = Some ''LinkedIn''"
    by code_simp
  ultimately show ?thesis by (simp add: no_soup_def)
qed

subsection \<open>C2: a row is saved exactly when a career page was found\<close>

lemma cafe_env_simps [simp]:
  "net cafe_env = cafe_web" "bs cafe_env = cafe_bs" "\<not> PLAYWRIGHT_AVAILABLE cafe_env"
  "bracketed_host_ok cafe_env = (\<lambda>h. True)"
  "stdout_encodes cafe_env = (\<lambda>c. (of_char c :: nat) < 128)"
  by (simp_all add: cafe_env_def)

lemma cafe_get:
  "fst (safe_get cafe_web u w) = Some (200, u, if u = cafe_job then ''posting'' else ''careers'')"
  by (simp add: safe_get_def MAX_RETRIES_def eval_nat_numeral perform_def cafe_web_def resp_ok_def)

lemma cafe_resolve: "u \<noteq> [] \<Longrightarrow> fst (resolve_final_url cafe_web (Some u) w) = Some u"
  by (simp add: resolve_final_url_def perform_def cafe_web_def tier_url_def resp_ok_def)

lemma cafe_posting:
  "extract_company_name (cafe_bs ''posting'') = Some cafe_name"
  "first_external_link (cafe_bs ''posting'') (Some ''linkedin.com'') = Some ''https://acme.example''"
  by code_simp+

lemma cafe_AB:
  "fst (step_AB cafe_env (Some cafe_job) up w) = (Some cafe_name, Some ''https://acme.example'')"
proof -
  from cafe_get [of cafe_job w] obtain w1 where
    "safe_get cafe_web cafe_job w = (Some (200, cafe_job, ''posting''), w1)"
    by (simp only: if_True refl) (rule fst_pairE)
  then show ?thesis
    by (simp add: step_AB_def py_or_def truthy_def extract_linkedin_job_requests_def
        safe_get_opt_def cafe_posting cafe_name_def)
qed

lemma cafe_site_not_linkedin:
  "is_linkedin_domain (\<lambda>h. True) (Some ''https://acme.example'') = Inr False"
  "is_linkedin_domain (\<lambda>h. True) (Some ''https://acme.example/careers'') = Inr False"
  "is_linkedin_domain (\<lambda>h. True) (Some ''https://acme.example/jobs/1'') = Inr False"
  by code_simp+

lemma cafe_C:
  "fst (step_C cafe_env (Some ''https://acme.example'') w) = Inr (Some ''https://acme.example'')"
proof -
  from cafe_resolve [of "''https://acme.example''" w] obtain w1 where
    "resolve_final_url cafe_web (Some ''https://acme.example'') w
       = (Some ''https://acme.example'', w1)"
    by simp (rule fst_pairE)
  then show ?thesis
    by (simp add: step_C_def truthy_def io_bind_def io_ok_def io_val_def cafe_site_not_linkedin)
qed

lemma cafe_parse:
  "urlparse (\<lambda>h. True) [] ''https://acme.example''
     = Inr \<lparr>scheme = ''https'', netloc = ''acme.example'', path = [], params = [],
            query = [], fragment = []\<rparr>"
  "urljoin (\<lambda>h. True) ''https://acme.example'' ''/careers'' = Inr ''https://acme.example/careers''"
  "any_in (CAREER_KEYWORDS @ JOB_KEYWORDS) (py_lower ''careers'')"
  by code_simp+

lemma cafe_find:
  "fst (find_career_page cafe_env (Some ''https://acme.example'') w)
     = Inr (Some ''https://acme.example/careers'')"
proof -
  from cafe_resolve [of "''https://acme.example''" w] obtain w1 where
    r: "resolve_final_url cafe_web (Some ''https://acme.example'') w
          = (Some ''https://acme.example'', w1)"
    by simp (rule fst_pairE)
  have "cafe_job \<noteq> ''https://acme.example/careers''" by (simp add: cafe_job_def)
  with cafe_get [of "''https://acme.example/careers''" w1] obtain w2 where
    g: "safe_get cafe_web ''https://acme.example/careers'' w1
          = (Some (200, ''https://acme.example/careers'', ''careers''), w2)"
    by (auto elim: fst_pairE)
  show ?thesis
    using r g
    by (simp add: find_career_page_def io_bind_def io_ok_def io_val_def truthy_def or_empty_def
        cafe_parse career_paths_def Let_def)
qed

lemma cafe_F:
  "fst (step_F cafe_env (Some ''https://acme.example'') w)
     = Inr (Some ''https://acme.example/careers'')"
proof -
  from cafe_find [of w] obtain w1 where
    "find_career_page cafe_env (Some ''https://acme.example'') w
       = (Inr (Some ''https://acme.example/careers''), w1)"
    by (rule fst_pairE)
  then show ?thesis
    by (simp add: step_F_def io_bind_def io_val_def truthy_def cafe_site_not_linkedin)
qed

lemma cafe_scan:
  "job_anchor_scan (\<lambda>h. True) ''https://acme.example/careers'' (anchors (cafe_bs ''careers''))
     = Inr (Some ''https://acme.example/jobs/1'')"
  by code_simp

lemma cafe_G:
  "fst (step_G cafe_env (Some ''https://acme.example/careers'') w)
     = Inr (Some ''https://acme.example/jobs/1'')"
proof -
  have "cafe_job \<noteq> ''https://acme.example/careers''" by (simp add: cafe_job_def)
  with cafe_get [of "''https://acme.example/careers''" w] obtain w1 where
    g: "safe_get cafe_web ''https://acme.example/careers'' w
          = (Some (200, ''https://acme.example/careers'', ''careers''), w1)"
    by (auto elim: fst_pairE)
  show ?thesis
    using g
    by (simp add: step_G_def extract_one_job_from_career_def io_bind_def io_ok_def io_val_def
        truthy_def or_empty_def cafe_scan cafe_site_not_linkedin Let_def)
qed

lemma cafe_line: "\<not> list_all (stdout_encodes cafe_env) (row_line cafe_row)"
  by (simp add: row_line_def cafe_row_def cafe_name_def)

lemma process_single_job_frame:
  assumes "step_AB ev job up w = ((name, s0), w1)"
    and "step_C ev s0 w1 = (rc, w2)"
    and "step_D ev name s1 w2 = (rd, w3)"
    and "step_F ev site w3 = (rf, w4)"
    and "step_G ev cp w4 = (rg, w5)"
  shows "sink w5 = sink w"
proof -
  from keeps_sink_step_AB assms(1) have "sink w1 = sink w" by (rule keeps_sinkD)
  moreover from keeps_sink_step_C assms(2) have "sink w2 = sink w1" by (rule keeps_sinkD)
  moreover from keeps_sink_step_D assms(3) have "sink w3 = sink w2" by (rule keeps_sinkD)
  moreover from keeps_sink_step_F assms(4) have "sink w4 = sink w3" by (rule keeps_sinkD)
  moreover from keeps_sink_step_G assms(5) have "sink w5 = sink w4" by (rule keeps_sinkD)
  ultimately show ?thesis by simp
qed

text \<open>
  C2, as amended. In \<open>process_single_job\<close> of part2_agent.py, once steps A to G have
  returned (they leave the CSV file as it was), a row is appended to the file exactly when
  the career page is non-empty, whatever the name, the site and the job opening hold (an
  absent one is written as the empty string); without a career page nothing is appended
  and \<open>None\<close> is returned. The row is appended before its line is printed: the function
  returns the row when the standard output can encode the line, and ends in
  \<open>UnicodeEncodeError\<close>, the row in the file, when it cannot. In every run, also one
  that ends in an exception, the file either stays as it was or grows by that one row,
  whose career page is non-empty. The earlier \<open>run_agent\<close> of part2_agent_prev.py has
  no such gate: when it completes, the file holds one row for every posting found.
\<close>

theorem row_saved_iff_career_page:
  "(step_AB ev job up w = ((name, s0), w1) \<longrightarrow>
    step_C ev s0 w1 = (Inr s1, w2) \<longrightarrow>
    step_D ev name s1 w2 = (Inr s2, w3) \<longrightarrow>
    step_F ev (step_E name s2) w3 = (Inr cp, w4) \<longrightarrow>
    step_G ev cp w4 = (Inr jo, w5) \<longrightarrow>
    sink w5 = sink w
    \<and> process_single_job ev job up w =
       (let r = \<lparr>company_name = or_empty name, company_website = or_empty (step_E name s2),
                  career_page = or_empty cp, job_url = or_empty jo\<rparr>
        in if \<not> truthy cp then (Inr None, w5)
           else if list_all (stdout_encodes ev) (row_line r)
           then (Inr (Some r), w5\<lparr>sink := sink w5 @ [r], stdout := stdout w5 @ [row_line r]\<rparr>)
           else (Inl UnicodeEncodeError, w5\<lparr>sink := sink w5 @ [r]\<rparr>)))
   \<and> (process_single_job ev job up w = (res, w') \<longrightarrow>
        (case res of
           Inr (Some r) \<Rightarrow> sink w' = sink w @ [r] \<and> career_page r \<noteq> []
         | Inr None \<Rightarrow> sink w' = sink w
         | Inl e \<Rightarrow>
             sink w' = sink w
             \<or> (e = UnicodeEncodeError
                \<and> (\<exists>r. sink w' = sink w @ [r] \<and> career_page r \<noteq> []
                        \<and> \<not> list_all (stdout_encodes ev) (row_line r)))))
   \<and> (run_agent ev url wp = (Inr u, wp') \<longrightarrow>
        (\<exists>job_urls wq. scrape_linkedin_jobs_search ev url True wp = (Inr job_urls, wq)
           \<and> length (sink wp') = length job_urls))"
  using process_single_job_run [of ev job up w name s0 w1 s1 w2 s2 w3 cp w4 jo w5]
    process_single_job_frame [of ev job up w name s0 w1 "Inr s1" w2 s1 "Inr s2" w3
      "step_E name s2" "Inr cp" w4 cp "Inr jo" w5]
    process_single_job_sink [of ev job up w res w']
    run_agent_rows [of ev url wp u wp']
  by blast

text \<open>
  Two runs: one where the line is printed and the row returned, and one where the row is
  saved and \<open>print\<close> raises.
\<close>

theorem row_saved_iff_career_page_witness:
  "sink (snd (process_single_job leak_env (Some leak_job) True world0))
     = sink world0 @ [\<lparr>company_name = ''LinkedIn.com'',
                        company_website = ''https://www.linkedin.com'',
                        career_page = ''https://careers.acme.example/'', job_url = []\<rparr>]
   \<and> career_page \<lparr>company_name = ''LinkedIn.com'',
                     company_website = ''https://www.linkedin.com'',
                     career_page = ''https://careers.acme.example/'', job_url = []\<rparr> \<noteq> []
   \<and> fst (process_single_job cafe_env (Some cafe_job) True world0) = Inl UnicodeEncodeError
   \<and> sink (snd (process_single_job cafe_env (Some cafe_job) True world0)) = [cafe_row]"
proof -
  from leak_run obtain w' where
    run: "process_single_job leak_env (Some leak_job) True world0
            = (Inr (Some \<lparr>company_name = ''LinkedIn.com'',
                           company_website = ''https://www.linkedin.com'',
                           career_page = ''https://careers.acme.example/'', job_url = []\<rparr>), w')"
    by (rule fst_pairE)
  from row_saved_iff_career_page [of leak_env "Some leak_job" True world0 _ _ _ _ _ _ _ _ _ _ _
      "Inr (Some \<lparr>company_name = ''LinkedIn.com'',
                    company_website = ''https://www.linkedin.com'',
                    career_page = ''https://careers.acme.example/'', job_url = []\<rparr>)" w']
    run
  have one: "sink (snd (process_single_job leak_env (Some leak_job) True world0))
     = sink world0 @ [\<lparr>company_name = ''LinkedIn.com'',
                        company_website = ''https://www.linkedin.com'',
                        career_page = ''https://careers.acme.example/'', job_url = []\<rparr>]"
    by simp
  from cafe_AB [of True world0] obtain w1 where
    ab: "step_AB cafe_env (Some cafe_job) True world0
           = ((Some cafe_name, Some ''https://acme.example''), w1)"
    by (rule fst_pairE)
  from cafe_C [of w1] obtain w2 where
    c: "step_C cafe_env (Some ''https://acme.example'') w1 = (Inr (Some ''https://acme.example''), w2)"
    by (rule fst_pairE)
  have d: "step_D cafe_env (Some cafe_name) (Some ''https://acme.example'') w2
             = (Inr (Some ''https://acme.example''), w2)"
    by (simp add: step_D_def truthy_def io_val_def)
  have e: "step_E (Some cafe_name) (Some ''https://acme.example'') = Some ''https://acme.example''"
    by (simp add: step_E_def truthy_def)
  from cafe_F [of w2] obtain w4 where
    f: "step_F cafe_env (step_E (Some cafe_name) (Some ''https://acme.example'')) w2
          = (Inr (Some ''https://acme.example/careers''), w4)"
    unfolding e by (rule fst_pairE)
  from cafe_G [of w4] obtain w5 where
    g: "step_G cafe_env (Some ''https://acme.example/careers'') w4
          = (Inr (Some ''https://acme.example/jobs/1''), w5)"
    by (rule fst_pairE)
  have r: "\<lparr>company_name = or_empty (Some cafe_name),
            company_website = or_empty (step_E (Some cafe_name) (Some ''https://acme.example'')),
            career_page = or_empty (Some ''https://acme.example/careers''),
            job_url = or_empty (Some ''https://acme.example/jobs/1'')\<rparr> = cafe_row"
    by (simp add: e or_empty_def cafe_row_def)
  from row_saved_iff_career_page [of cafe_env "Some cafe_job" True world0 "Some cafe_name"
      "Some ''https://acme.example''" w1 "Some ''https://acme.example''" w2
      "Some ''https://acme.example''" w2 "Some ''https://acme.example/careers''" w4
      "Some ''https://acme.example/jobs/1''" w5] ab c d f g
  have "sink w5 = sink world0
    \<and> process_single_job cafe_env (Some cafe_job) True world0
        = (Inl UnicodeEncodeError, w5\<lparr>sink := sink w5 @ [cafe_row]\<rparr>)"
    unfolding r Let_def using cafe_line by (simp add: truthy_def)
  then have two: "fst (process_single_job cafe_env (Some cafe_job) True world0)
        = Inl UnicodeEncodeError"
    "sink (snd (process_single_job cafe_env (Some cafe_job) True world0)) = [cafe_row]"
    by (simp_all add: world0_def)
  from one two show ?thesis by simp
qed

text \<open>
  The claim as stated fails on the earlier variant: \<open>run_agent\<close> writes a row whose
  career page is empty.
\<close>

theorem run_agent_row_without_career_page:
  "sink (snd (run_agent dead_env listing_url world0))
     = [\<lparr>company_name = [], company_website = [], career_page = [], job_url = []\<rparr>]"
  by (rule dead_run)

subsection \<open>C3: the two tiers of the redirect resolver\<close>

text \<open>
  C3. For a non-empty input URL the redirect resolver returns a URL, never \<open>None\<close>, and
  writes nothing to the CSV file. It first makes the HEAD request: when that is answered
  by a response with a status outside 400..599 and a non-empty URL, that URL is returned
  and nothing else is requested. On any failure of the HEAD request (it raised, or was
  answered with a status in 400..599, or with an empty URL, or by something that is not
  a response) the GET request is made next, and its URL is returned under the same
  condition; when the GET request fails too, the input is returned unchanged.
\<close>

theorem resolve_final_url_two_tier:
  assumes "url \<noteq> []"
  shows "(\<exists>res w'. resolve_final_url wb (Some url) w = (Some res, w') \<and> res \<noteq> []
            \<and> sink w' = sink w)
    \<and> (\<forall>status u t.
          wb (requests_made w) (Head url) = Resp status u t
          \<and> \<not> (400 \<le> status \<and> status < 600) \<and> u \<noteq> [] \<longrightarrow>
          resolve_final_url wb (Some url) w
            = (Some u, w\<lparr>requests_made := requests_made w @ [Head url]\<rparr>))
    \<and> (wb (requests_made w) (Head url) = Raised
        \<or> (\<exists>n. wb (requests_made w) (Head url) = Height n)
        \<or> (\<exists>status u t. wb (requests_made w) (Head url) = Resp status u t
              \<and> ((400 \<le> status \<and> status < 600) \<or> u = [])) \<longrightarrow>
        (\<forall>status u t.
           wb (requests_made w @ [Head url]) (Get url) = Resp status u t
           \<and> \<not> (400 \<le> status \<and> status < 600) \<and> u \<noteq> [] \<longrightarrow>
           resolve_final_url wb (Some url) w
             = (Some u, w\<lparr>requests_made := requests_made w @ [Head url, Get url]\<rparr>))
        \<and> (wb (requests_made w @ [Head url]) (Get url) = Raised
            \<or> (\<exists>n. wb (requests_made w @ [Head url]) (Get url) = Height n)
            \<or> (\<exists>status u t. wb (requests_made w @ [Head url]) (Get url) = Resp status u t
                  \<and> ((400 \<le> status \<and> status < 600) \<or> u = [])) \<longrightarrow>
            resolve_final_url wb (Some url) w
              = (Some url, w\<lparr>requests_made := requests_made w @ [Head url, Get url]\<rparr>)))"
proof -
  let ?r1 = "wb (requests_made w) (Head url)"
  let ?r2 = "wb (requests_made w @ [Head url]) (Get url)"
  have ok: "tier_url r = Some u" if "r = Resp status u t" "\<not> (400 \<le> status \<and> status < 600)"
    "u \<noteq> []" for r status u t
    using that by (simp add: tier_url_def resp_ok_def)
  have bad: "tier_url r = None"
    if "r = Raised \<or> (\<exists>n. r = Height n)
        \<or> (\<exists>status u t. r = Resp status u t \<and> ((400 \<le> status \<and> status < 600) \<or> u = []))" for r
    using that by (auto simp: tier_url_def resp_ok_def)
  have some: "tier_url r = Some u \<Longrightarrow> u \<noteq> []" for r u
    by (auto simp: tier_url_def split: outcome.splits if_splits)
  note c = resolve_final_url_cases [OF assms, of wb w]
  have 1: "\<exists>res w'. resolve_final_url wb (Some url) w = (Some res, w') \<and> res \<noteq> []
            \<and> sink w' = sink w"
    using assms some [of ?r1] some [of ?r2]
    by (auto simp: c Let_def split: option.splits)
  have 2: "resolve_final_url wb (Some url) w
            = (Some u, w\<lparr>requests_made := requests_made w @ [Head url]\<rparr>)"
    if "?r1 = Resp status u t" "\<not> (400 \<le> status \<and> status < 600)" "u \<noteq> []" for status u t
    using ok [OF that] by (simp add: c Let_def)
  have 3: "resolve_final_url wb (Some url) w
             = (Some u, w\<lparr>requests_made := requests_made w @ [Head url, Get url]\<rparr>)"
    if "tier_url ?r1 = None" "?r2 = Resp status u t" "\<not> (400 \<le> status \<and> status < 600)" "u \<noteq> []"
    for status u t
    using ok [OF that(2-4)] that(1) by (simp add: c Let_def)
  have 4: "resolve_final_url wb (Some url) w
             = (Some url, w\<lparr>requests_made := requests_made w @ [Head url, Get url]\<rparr>)"
    if "tier_url ?r1 = None" "tier_url ?r2 = None"
    using that by (simp add: c Let_def)
  show ?thesis
    apply (intro conjI allI impI)
    subgoal by (rule 1)
    subgoal for status u t
      by (elim conjE) (rule 2 [of status u t], assumption+)
    subgoal for status u t
      by (elim conjE) (rule 3 [of status u t], rule bad, assumption+)
    subgoal
      by (rule 4; rule bad; assumption)
    done
qed

text \<open>
  Three runs: a HEAD request answered 404 and a GET request that succeeds; a HEAD request
  that succeeds; and both requests failing.
\<close>

theorem resolve_final_url_two_tier_witness:
  "''https://lnkd.in/abc'' \<noteq> []
   \<and> head_404_web (requests_made world0) (Head ''https://lnkd.in/abc'')
       = Resp 404 ''https://lnkd.in/abc'' []
   \<and> head_404_web (requests_made world0 @ [Head ''https://lnkd.in/abc''])
         (Get ''https://lnkd.in/abc'') = Resp 200 ''https://acme.example/'' []
   \<and> resolve_final_url head_404_web (Some ''https://lnkd.in/abc'') world0
       = (Some ''https://acme.example/'',
          world0\<lparr>requests_made := [Head ''https://lnkd.in/abc'', Get ''https://lnkd.in/abc'']\<rparr>)
   \<and> cafe_web (requests_made world0) (Head ''https://lnkd.in/abc'')
       = Resp 200 ''https://lnkd.in/abc'' []
   \<and> resolve_final_url cafe_web (Some ''https://lnkd.in/abc'') world0
       = (Some ''https://lnkd.in/abc'', world0\<lparr>requests_made := [Head ''https://lnkd.in/abc'']\<rparr>)
   \<and> both_fail_web (requests_made world0) (Head ''https://lnkd.in/abc'') = Raised
   \<and> both_fail_web (requests_made world0 @ [Head ''https://lnkd.in/abc''])
         (Get ''https://lnkd.in/abc'') = Resp 503 ''https://lnkd.in/abc'' []
   \<and> resolve_final_url both_fail_web (Some ''https://lnkd.in/abc'') world0
       = (Some ''https://lnkd.in/abc'',
          world0\<lparr>requests_made := [Head ''https://lnkd.in/abc'', Get ''https://lnkd.in/abc'']\<rparr>)"
proof -
  have ne: "''https://lnkd.in/abc'' \<noteq> []" by simp
  have h1: "head_404_web (requests_made world0) (Head ''https://lnkd.in/abc'')
       = Resp 404 ''https://lnkd.in/abc'' []"
    and g1: "head_404_web (requests_made world0 @ [Head ''https://lnkd.in/abc''])
         (Get ''https://lnkd.in/abc'') = Resp 200 ''https://acme.example/'' []"
    by (simp_all add: head_404_web_def)
  have h2: "cafe_web (requests_made world0) (Head ''https://lnkd.in/abc'')
       = Resp 200 ''https://lnkd.in/abc'' []"
    by (simp add: cafe_web_def)
  have h3: "both_fail_web (requests_made world0) (Head ''https://lnkd.in/abc'') = Raised"
    and g3: "both_fail_web (requests_made world0 @ [Head ''https://lnkd.in/abc''])
         (Get ''https://lnkd.in/abc'') = Resp 503 ''https://lnkd.in/abc'' []"
    by (simp_all add: both_fail_web_def)
  have r0: "requests_made world0 = []" by (simp add: world0_def)
  from resolve_final_url_two_tier [OF ne, of head_404_web world0] h1 g1
  have a: "resolve_final_url head_404_web (Some ''https://lnkd.in/abc'') world0
       = (Some ''https://acme.example/'',
          world0\<lparr>requests_made := [Head ''https://lnkd.in/abc'', Get ''https://lnkd.in/abc'']\<rparr>)"
    by (simp add: r0)
  from resolve_final_url_two_tier [OF ne, of cafe_web world0] h2
  have b: "resolve_final_url cafe_web (Some ''https://lnkd.in/abc'') world0
       = (Some ''https://lnkd.in/abc'', world0\<lparr>requests_made := [Head ''https://lnkd.in/abc'']\<rparr>)"
    by (simp add: r0)
  from resolve_final_url_two_tier [OF ne, of both_fail_web world0] h3 g3
  have c: "resolve_final_url both_fail_web (Some ''https://lnkd.in/abc'') world0
       = (Some ''https://lnkd.in/abc'',
          world0\<lparr>requests_made := [Head ''https://lnkd.in/abc'', Get ''https://lnkd.in/abc'']\<rparr>)"
    by (simp add: r0)
  from ne h1 g1 a h2 b h3 g3 c show ?thesis by blast
qed

subsection \<open>C4: the passes of the scroll loop\<close>

text \<open>
  The passes of the loop. \<open>S i\<close> is the list of identifiers after \<open>i\<close> passes; pass
  \<open>i + 1\<close> reads the answer to the scroll request made after \<open>i\<close> earlier ones. With
  \<open>prev = None\<close> the loop is at its first pass, which cannot stop it; else \<open>prev\<close> is
  the length of the list and the next pass can.
\<close>

lemma scroll_loop_passes:
  assumes "scroll_loop ev url n prev urls w = (Inr res, w')"
    and "prev = None \<or> prev = Some (length urls)"
  shows "\<exists>k S. k \<le> n \<and> S 0 = urls \<and> S k = res
     \<and> requests_made w' = requests_made w @ replicate k (Scroll url)
     \<and> (\<forall>i<k. \<exists>status final content.
           net ev (requests_made w @ replicate i (Scroll url)) (Scroll url)
             = Resp status final content
           \<and> collect_job_urls (bracketed_host_ok ev) url (anchors (bs ev content)) (S i)
               = Inr (S (Suc i)))
     \<and> (\<forall>i. (if prev = None then 2 else 1) \<le> i \<and> i < k \<longrightarrow> length (S (i - 1)) < length (S i))
     \<and> (k < n \<longrightarrow> (if prev = None then 2 else 1) \<le> k \<and> length (S k) = length (S (k - 1)))"
  using assms
proof (induction n arbitrary: prev urls w)
  case 0
  then show ?case
    by (intro exI [of _ 0] exI [of _ "\<lambda>i. urls"]) simp
next
  case (Suc n)
  let ?w1 = "w\<lparr>requests_made := requests_made w @ [Scroll url]\<rparr>"
  let ?t = "if prev = None then 2 else (1::nat)"
  have p: "perform (net ev) (Scroll url) w = (net ev (requests_made w) (Scroll url), ?w1)"
    by (simp add: perform_def)
  from Suc.prems(1) p obtain status final content where
    resp: "net ev (requests_made w) (Scroll url) = Resp status final content"
    by (cases "net ev (requests_made w) (Scroll url)") auto
  from Suc.prems(1) p resp obtain urls' where
    col: "collect_job_urls (bracketed_host_ok ev) url (anchors (bs ev content)) urls = Inr urls'"
    by (cases "collect_job_urls (bracketed_host_ok ev) url (anchors (bs ev content)) urls") auto
  from collect_job_urls_grows [OF col] have g: "length urls \<le> length urls'" by simp
  show ?case
  proof (cases "prev = Some (length urls')")
    case True
    with Suc.prems(1) p resp col have r: "res = urls'" "w' = ?w1" by simp_all
    from True Suc.prems(2) have pl: "prev \<noteq> None" "length urls' = length urls"
      by auto
    define S where "S = (\<lambda>i::nat. if i = 0 then urls else urls')"
    have "1 \<le> Suc n" by simp
    moreover have "S 0 = urls" "S 1 = res" by (simp_all add: S_def r)
    moreover have "requests_made w' = requests_made w @ replicate 1 (Scroll url)"
      by (simp add: r)
    moreover have "\<forall>i<1. \<exists>status final content.
           net ev (requests_made w @ replicate i (Scroll url)) (Scroll url)
             = Resp status final content
           \<and> collect_job_urls (bracketed_host_ok ev) url (anchors (bs ev content)) (S i)
               = Inr (S (Suc i))"
      using resp col by (simp add: S_def)
    moreover have "\<forall>i. ?t \<le> i \<and> i < 1 \<longrightarrow> length (S (i - 1)) < length (S i)"
      by auto
    moreover have "1 < Suc n \<longrightarrow> ?t \<le> 1 \<and> length (S 1) = length (S (1 - 1))"
      using pl by (auto simp: S_def)
    ultimately show ?thesis
      by (intro exI [of _ 1] exI [of _ S]) blast
  next
    case False
    with Suc.prems(1) p resp col have
      rec: "scroll_loop ev url n (Some (length urls')) urls' ?w1 = (Inr res, w')"
      by simp
    from Suc.IH [OF rec] obtain k S' where k: "k \<le> n"
      and s0: "S' 0 = urls'" and sk: "S' k = res"
      and lg: "requests_made w' = requests_made ?w1 @ replicate k (Scroll url)"
      and pass: "\<And>i. i < k \<Longrightarrow> \<exists>status final content.
           net ev (requests_made ?w1 @ replicate i (Scroll url)) (Scroll url)
             = Resp status final content
           \<and> collect_job_urls (bracketed_host_ok ev) url (anchors (bs ev content)) (S' i)
               = Inr (S' (Suc i))"
      and grow: "\<And>i. 1 \<le> i \<Longrightarrow> i < k \<Longrightarrow> length (S' (i - 1)) < length (S' i)"
      and stop: "k < n \<Longrightarrow> 1 \<le> k \<and> length (S' k) = length (S' (k - 1))"
      by auto
    define S where "S = (\<lambda>i. case i of 0 \<Rightarrow> urls | Suc j \<Rightarrow> S' j)"
    have S0: "S 0 = urls" and SS: "\<And>j. S (Suc j) = S' j" by (simp_all add: S_def)
    have a: "Suc k \<le> Suc n" using k by simp
    have b: "S (Suc k) = res" by (simp add: SS sk)
    have c: "requests_made w' = requests_made w @ replicate (Suc k) (Scroll url)"
      using lg by simp
    have d: "\<forall>i<Suc k. \<exists>status final content.
           net ev (requests_made w @ replicate i (Scroll url)) (Scroll url)
             = Resp status final content
           \<and> collect_job_urls (bracketed_host_ok ev) url (anchors (bs ev content)) (S i)
               = Inr (S (Suc i))"
    proof (intro allI impI)
      fix i assume i: "i < Suc k"
      show "\<exists>status final content.
           net ev (requests_made w @ replicate i (Scroll url)) (Scroll url)
             = Resp status final content
           \<and> collect_job_urls (bracketed_host_ok ev) url (anchors (bs ev content)) (S i)
               = Inr (S (Suc i))"
      proof (cases i)
        case 0
        with resp col show ?thesis by (simp add: S0 SS s0)
      next
        case (Suc j)
        with i have "j < k" by simp
        from pass [OF this] Suc show ?thesis by (simp add: SS)
      qed
    qed
    have e: "\<forall>i. ?t \<le> i \<and> i < Suc k \<longrightarrow> length (S (i - 1)) < length (S i)"
    proof (intro allI impI)
      fix i assume i: "?t \<le> i \<and> i < Suc k"
      then obtain j where j: "i = Suc j" by (cases i) (auto split: if_splits)
      show "length (S (i - 1)) < length (S i)"
      proof (cases j)
        case 0
        with i j have "prev \<noteq> None" by (auto split: if_splits)
        with Suc.prems(2) have "prev = Some (length urls)" by simp
        with False g have "length urls < length urls'" by auto
        with 0 j show ?thesis by (simp add: S0 SS s0)
      next
        case (Suc j')
        with i j have "1 \<le> j" "j < k" by simp_all
        from grow [OF this] Suc j show ?thesis by (simp add: SS)
      qed
    qed
    have f: "Suc k < Suc n \<longrightarrow> ?t \<le> Suc k \<and> length (S (Suc k)) = length (S (Suc k - 1))"
    proof
      assume "Suc k < Suc n"
      then have "k < n" by simp
      from stop [OF this] have k1: "1 \<le> k" and eq: "length (S' k) = length (S' (k - 1))"
        by simp_all
      from k1 obtain m where m: "k = Suc m" by (cases k) auto
      with eq have "length (S (Suc k)) = length (S (Suc k - 1))" by (simp add: SS)
      with k1 show "?t \<le> Suc k \<and> length (S (Suc k)) = length (S (Suc k - 1))" by simp
    qed
    from a S0 b c d e f show ?thesis
      by (intro exI [of _ "Suc k"] exI [of _ S]) blast
  qed
qed

lemma scrape_passes:
  assumes "PLAYWRIGHT_AVAILABLE ev"
    and "scrape_jobs_from_search_page ev url m w = (Inr res, w')"
  shows "\<exists>k S. k \<le> m \<and> S 0 = [] \<and> S k = res
     \<and> requests_made w' = requests_made w @ Goto url # replicate k (Scroll url)
     \<and> (\<forall>i<k. \<exists>status final content.
           net ev (requests_made w @ Goto url # replicate i (Scroll url)) (Scroll url)
             = Resp status final content
           \<and> collect_job_urls (bracketed_host_ok ev) url (anchors (bs ev content)) (S i)
               = Inr (S (Suc i)))
     \<and> (\<forall>i. 2 \<le> i \<and> i < k \<longrightarrow> length (S (i - 1)) < length (S i))
     \<and> (k < m \<longrightarrow> 2 \<le> k \<and> length (S k) = length (S (k - 1)) \<and> S k = S (k - 1))"
proof -
  let ?w1 = "w\<lparr>requests_made := requests_made w @ [Goto url]\<rparr>"
  have p: "perform (net ev) (Goto url) w = (net ev (requests_made w) (Goto url), ?w1)"
    by (simp add: perform_def)
  from assms p have loop: "scroll_loop ev url m None [] ?w1 = (Inr res, w')"
    by (cases "net ev (requests_made w) (Goto url)")
      (simp_all add: scrape_jobs_from_search_page_def)
  from scroll_loop_passes [OF loop] obtain k S where k: "k \<le> m"
    and s0: "S 0 = []" and sk: "S k = res"
    and lg: "requests_made w' = requests_made ?w1 @ replicate k (Scroll url)"
    and pass: "\<forall>i<k. \<exists>status final content.
           net ev (requests_made ?w1 @ replicate i (Scroll url)) (Scroll url)
             = Resp status final content
           \<and> collect_job_urls (bracketed_host_ok ev) url (anchors (bs ev content)) (S i)
               = Inr (S (Suc i))"
    and grow: "\<forall>i. 2 \<le> i \<and> i < k \<longrightarrow> length (S (i - 1)) < length (S i)"
    and stop: "k < m \<longrightarrow> 2 \<le> k \<and> length (S k) = length (S (k - 1))"
    by auto
  have same: "k < m \<longrightarrow> 2 \<le> k \<and> length (S k) = length (S (k - 1)) \<and> S k = S (k - 1)"
  proof
    assume "k < m"
    with stop have k2: "2 \<le> k" and eq: "length (S k) = length (S (k - 1))" by simp_all
    from k2 obtain j where j: "k = Suc j" by (cases k) auto
    with pass obtain status final content where
      "collect_job_urls (bracketed_host_ok ev) url (anchors (bs ev content)) (S j) = Inr (S (Suc j))"
      by blast
    from collect_job_urls_same_length [OF this] eq j have "S k = S (k - 1)" by simp
    with k2 eq show "2 \<le> k \<and> length (S k) = length (S (k - 1)) \<and> S k = S (k - 1)" by simp
  qed
  from lg have lg': "requests_made w' = requests_made w @ Goto url # replicate k (Scroll url)"
    by simp
  from pass have pass': "\<forall>i<k. \<exists>status final content.
           net ev (requests_made w @ Goto url # replicate i (Scroll url)) (Scroll url)
             = Resp status final content
           \<and> collect_job_urls (bracketed_host_ok ev) url (anchors (bs ev content)) (S i)
               = Inr (S (Suc i))"
    by simp
  from k s0 sk lg' pass' grow same show ?thesis
    by (intro exI [of _ k] exI [of _ S]) blast
qed

text \<open>
  C4, as amended. Listing expansion terminates: it makes at most \<open>max_scrolls\<close> passes
  (20 by default), each one \<open>Scroll\<close> request, whatever the outcome. When it returns,
  after \<open>k\<close> passes, the lists \<open>S 0 = []\<close>, ..., \<open>S k\<close> of identifiers after each pass
  are these: pass \<open>i + 1\<close> collects from the content of scroll \<open>i + 1\<close> into \<open>S i\<close>
  and gives \<open>S (i + 1)\<close>, and the result is \<open>S k\<close>, without repetitions. The first pass
  never stops the loop, also when it adds nothing. From the second pass on the loop stops
  at the first pass that leaves the number of identifiers unchanged: every pass from the
  second to the one before the last added an identifier, and when fewer passes than the
  maximum were made, there were at least two and the last one left the number, and so
  the list, as it was. A pass only adds identifiers, and repeating it on the same content
  changes nothing.
\<close>

theorem scroll_loop_bounded_and_stable:
  "(\<exists>k\<le>m. requests_made (snd (scrape_jobs_from_search_page ev url m w))
             = requests_made w
               @ (if PLAYWRIGHT_AVAILABLE ev then Goto url # replicate k (Scroll url) else []))
   \<and> (PLAYWRIGHT_AVAILABLE ev \<longrightarrow> scrape_jobs_from_search_page ev url m w = (Inr res, w') \<longrightarrow>
        distinct res
        \<and> (\<exists>k S. k \<le> m \<and> S 0 = [] \<and> S k = res
              \<and> requests_made w' = requests_made w @ Goto url # replicate k (Scroll url)
              \<and> (\<forall>i<k. \<exists>status final content.
                    net ev (requests_made w @ Goto url # replicate i (Scroll url)) (Scroll url)
                      = Resp status final content
                    \<and> collect_job_urls (bracketed_host_ok ev) url (anchors (bs ev content)) (S i)
                        = Inr (S (Suc i)))
              \<and> (\<forall>i. 2 \<le> i \<and> i < k \<longrightarrow> length (S (i - 1)) < length (S i))
              \<and> (k < m \<longrightarrow> 2 \<le> k \<and> length (S k) = length (S (k - 1)) \<and> S k = S (k - 1))))
   \<and> (collect_job_urls bh url as urls = Inr urls' \<longrightarrow>
        set urls \<subseteq> set urls' \<and> length urls \<le> length urls'
        \<and> collect_job_urls bh url as urls' = Inr urls')"
proof (intro conjI impI)
  show "\<exists>k\<le>m. requests_made (snd (scrape_jobs_from_search_page ev url m w))
             = requests_made w
               @ (if PLAYWRIGHT_AVAILABLE ev then Goto url # replicate k (Scroll url) else [])"
    by (rule scrape_requests)
next
  assume "PLAYWRIGHT_AVAILABLE ev" "scrape_jobs_from_search_page ev url m w = (Inr res, w')"
  from scrape_trace [OF this] show "distinct res" by (elim exE conjE)
next
  assume "PLAYWRIGHT_AVAILABLE ev" "scrape_jobs_from_search_page ev url m w = (Inr res, w')"
  then show "\<exists>k S. k \<le> m \<and> S 0 = [] \<and> S k = res
              \<and> requests_made w' = requests_made w @ Goto url # replicate k (Scroll url)
              \<and> (\<forall>i<k. \<exists>status final content.
                    net ev (requests_made w @ Goto url # replicate i (Scroll url)) (Scroll url)
                      = Resp status final content
                    \<and> collect_job_urls (bracketed_host_ok ev) url (anchors (bs ev content)) (S i)
                        = Inr (S (Suc i)))
              \<and> (\<forall>i. 2 \<le> i \<and> i < k \<longrightarrow> length (S (i - 1)) < length (S i))
              \<and> (k < m \<longrightarrow> 2 \<le> k \<and> length (S k) = length (S (k - 1)) \<and> S k = S (k - 1))"
    by (rule scrape_passes)
next
  assume c: "collect_job_urls bh url as urls = Inr urls'"
  from collect_job_urls_grows [OF c] show "set urls \<subseteq> set urls'" "length urls \<le> length urls'"
    by simp_all
  from collect_job_urls_idem [OF c] show "collect_job_urls bh url as urls' = Inr urls'" .
qed

text \<open>
  A run on the listing that shows nothing after the first scroll and one posting after
  every later one: three passes, the third leaving the list as the second made it.
\<close>

theorem scroll_loop_bounded_and_stable_witness:
  "PLAYWRIGHT_AVAILABLE slow_env
   \<and> scrape_jobs_from_search_page slow_env listing_url max_scrolls_default world0
       = (Inr [Some ''https://www.linkedin.com/jobs/view/7''],
          world0\<lparr>requests_made := [Goto listing_url, Scroll listing_url, Scroll listing_url,
                                    Scroll listing_url]\<rparr>)
   \<and> (\<exists>S :: nat \<Rightarrow> string option list. S 0 = [] \<and> S 3 = [Some ''https://www.linkedin.com/jobs/view/7'']
          \<and> S 3 = S 2 \<and> (3::nat) < max_scrolls_default)"
proof -
  have a: "PLAYWRIGHT_AVAILABLE slow_env" by (simp add: slow_env_def)
  note t = scroll_loop_bounded_and_stable [of max_scrolls_default slow_env listing_url world0
      "[Some ''https://www.linkedin.com/jobs/view/7'']"
      "world0\<lparr>requests_made := [Goto listing_url, Scroll listing_url, Scroll listing_url,
                                 Scroll listing_url]\<rparr>"]
  note ex = t [THEN conjunct2, THEN conjunct1, rule_format, OF a slow_run, THEN conjunct2]
  from ex obtain k S where
    all: "k \<le> max_scrolls_default \<and> S 0 = []
      \<and> S k = [Some ''https://www.linkedin.com/jobs/view/7'']
      \<and> requests_made (world0\<lparr>requests_made := [Goto listing_url, Scroll listing_url,
                                   Scroll listing_url, Scroll listing_url]\<rparr>)
           = requests_made world0 @ Goto listing_url # replicate k (Scroll listing_url)
      \<and> (\<forall>i<k. \<exists>status final content.
            net slow_env (requests_made world0 @ Goto listing_url # replicate i (Scroll listing_url))
              (Scroll listing_url) = Resp status final content
            \<and> collect_job_urls (bracketed_host_ok slow_env) listing_url
                 (anchors (bs slow_env content)) (S i) = Inr (S (Suc i)))
      \<and> (\<forall>i. 2 \<le> i \<and> i < k \<longrightarrow> length (S (i - 1)) < length (S i))
      \<and> (k < max_scrolls_default \<longrightarrow>
            2 \<le> k \<and> length (S k) = length (S (k - 1)) \<and> S k = S (k - 1))"
    by (elim exE) (rule that)
  from all have s0: "S 0 = []" by (elim conjE)
  from all have sk: "S k = [Some ''https://www.linkedin.com/jobs/view/7'']" by (elim conjE)
  from all have rq: "requests_made (world0\<lparr>requests_made := [Goto listing_url,
                         Scroll listing_url, Scroll listing_url, Scroll listing_url]\<rparr>)
           = requests_made world0 @ Goto listing_url # replicate k (Scroll listing_url)"
    by (elim conjE)
  from all have st: "k < max_scrolls_default \<longrightarrow>
            2 \<le> k \<and> length (S k) = length (S (k - 1)) \<and> S k = S (k - 1)"
    by (elim conjE)
  from rq have "[Scroll listing_url, Scroll listing_url, Scroll listing_url]
                  = replicate k (Scroll listing_url)"
    by (simp add: world0_def)
  then have "length [Scroll listing_url, Scroll listing_url, Scroll listing_url]
               = length (replicate k (Scroll listing_url))"
    by (rule arg_cong)
  then have k: "k = 3" by simp
  have lt: "(3::nat) < max_scrolls_default" by (simp add: max_scrolls_default_def)
  with st k have s32: "S 3 = S 2" by simp
  from sk have s3: "S 3 = [Some ''https://www.linkedin.com/jobs/view/7'']"
    unfolding k .
  from s0 s3 s32 lt have "S 0 = [] \<and> S 3 = [Some ''https://www.linkedin.com/jobs/view/7'']
          \<and> S 3 = S 2 \<and> (3::nat) < max_scrolls_default"
    by (intro conjI)
  then have "\<exists>S :: nat \<Rightarrow> string option list. S 0 = [] \<and> S 3 = [Some ''https://www.linkedin.com/jobs/view/7'']
          \<and> S 3 = S 2 \<and> (3::nat) < max_scrolls_default"
    by (rule exI [of _ S])
  with a slow_run show ?thesis by (intro conjI)
qed

text \<open>
  The claim as stated fails: the first pass over this listing adds no identifier, and the
  loop goes on for two more passes and returns the identifier found in the second.
\<close>

theorem first_pass_without_identifiers_goes_on:
  "net slow_env (requests_made world0 @ [Goto listing_url]) (Scroll listing_url)
     = Resp 200 listing_url ''empty''
   \<and> collect_job_urls (bracketed_host_ok slow_env) listing_url
        (anchors (bs slow_env ''empty'')) [] = Inr []
   \<and> scrape_jobs_from_search_page slow_env listing_url max_scrolls_default world0
       = (Inr [Some ''https://www.linkedin.com/jobs/view/7''],
          world0\<lparr>requests_made := [Goto listing_url, Scroll listing_url, Scroll listing_url,
                                    Scroll listing_url]\<rparr>)"
  using slow_run
  by (simp add: slow_env_def slow_web_def slow_bs_def world0_def no_soup_def)

end
